theory Spec2Isabelle
  imports Complex_Main "HOL-Library.Word" "HOL-Library.Multiset"
begin

section \<open>Single-precision floating point\<close>

text \<open>
  The voxel field, the bounding box and the mesh hold C++ \<open>float\<close> values: IEEE-754
  binary32 with round-to-nearest-even, every operation rounded once to single precision
  (no excess precision and no fused multiply-add).
  Every finite binary32 number is a whole multiple of \<open>2^-149\<close> (the smallest
  subnormal), so a finite value is its sign and its magnitude counted in these units;
  the sign is kept apart because \<open>+0.0\<close> and \<open>-0.0\<close> are different values that
  compare equal. All NaNs are one value: payloads are not tracked.
\<close>

datatype float = NaN | Infty bool | Finite bool nat

text \<open>Number of binary digits of a natural number.\<close>

fun bit_length :: "nat \<Rightarrow> nat" where
  "bit_length n = (if n = 0 then 0 else Suc (bit_length (n div 2)))"

declare bit_length.simps [simp del]

text \<open>
  A magnitude counted in units is representable when it has at most 24 significant bits;
  the largest is \<open>(2^24 - 1) * 2^253\<close>, and \<open>2^277\<close> units are \<open>2^128\<close>.
\<close>

fun is_float :: "float \<Rightarrow> bool" where
  "is_float NaN = True"
| "is_float (Infty s) = True"
| "is_float (Finite s n) = (n < 2 ^ 277 \<and> 2 ^ (bit_length n - 24) dvd n)"

text \<open>
  \<open>fround s p q\<close> rounds the magnitude \<open>p / q\<close> units (\<open>q\<close> is not zero), of sign
  \<open>s\<close>, to the nearest representable magnitude, ties to the even significand; a result
  of \<open>2^128\<close> or more overflows to infinity. The spacing of the floats around \<open>p / q\<close>
  is \<open>2^k\<close> units.
\<close>

definition fround :: "bool \<Rightarrow> nat \<Rightarrow> nat \<Rightarrow> float" where
  "fround s p q =
     (let k = bit_length (p div q) - 24;
          d = q * 2 ^ k;
          m = p div d;
          r = p mod d;
          m' = (if 2 * r < d then m else if d < 2 * r then m + 1
                else if even m then m else m + 1);
          n = m' * 2 ^ k
      in if 2 ^ 277 \<le> n then Infty s else Finite s n)"

text \<open>The value in units, as a signed integer; an infinity counts as \<open>2^128\<close>.\<close>

fun units :: "float \<Rightarrow> int" where
  "units NaN = 0"
| "units (Infty s) = (if s then - (2 ^ 277) else 2 ^ 277)"
| "units (Finite s n) = (if s then - int n else int n)"

definition valof :: "float \<Rightarrow> rat" where
  "valof a = of_int (units a) / 2 ^ 149"

definition is_nan :: "float \<Rightarrow> bool" where
  "is_nan a = (a = NaN)"

fun is_finite :: "float \<Rightarrow> bool" where
  "is_finite (Finite s n) = True"
| "is_finite a = False"

text \<open>The comparisons \<open><\<close>, \<open><=\<close> and \<open>==\<close>: false as soon as an operand is NaN.\<close>

definition flt :: "float \<Rightarrow> float \<Rightarrow> bool" where
  "flt a b = (\<not> is_nan a \<and> \<not> is_nan b \<and> units a < units b)"

definition fle :: "float \<Rightarrow> float \<Rightarrow> bool" where
  "fle a b = (\<not> is_nan a \<and> \<not> is_nan b \<and> units a \<le> units b)"

definition feq :: "float \<Rightarrow> float \<Rightarrow> bool" where
  "feq a b = (\<not> is_nan a \<and> \<not> is_nan b \<and> units a = units b)"

fun fneg :: "float \<Rightarrow> float" where
  "fneg NaN = NaN"
| "fneg (Infty s) = Infty (\<not> s)"
| "fneg (Finite s n) = Finite (\<not> s) n"

text \<open>\<open>std::abs\<close> on a float clears the sign.\<close>

fun fabs :: "float \<Rightarrow> float" where
  "fabs NaN = NaN"
| "fabs (Infty s) = Infty False"
| "fabs (Finite s n) = Finite False n"

fun fadd :: "float \<Rightarrow> float \<Rightarrow> float" where
  "fadd (Finite s m) (Finite t n) =
     (let u = units (Finite s m) + units (Finite t n)
      in if u = 0 then Finite (s \<and> t) 0 else fround (u < 0) (nat \<bar>u\<bar>) 1)"
| "fadd (Infty s) (Infty t) = (if s = t then Infty s else NaN)"
| "fadd (Infty s) (Finite t n) = Infty s"
| "fadd (Finite s m) (Infty t) = Infty t"
| "fadd a b = NaN"

definition fsub :: "float \<Rightarrow> float \<Rightarrow> float" where
  "fsub a b = fadd a (fneg b)"

fun fmul :: "float \<Rightarrow> float \<Rightarrow> float" where
  "fmul (Finite s m) (Finite t n) = fround (s \<noteq> t) (m * n) (2 ^ 149)"
| "fmul (Infty s) (Infty t) = Infty (s \<noteq> t)"
| "fmul (Infty s) (Finite t n) = (if n = 0 then NaN else Infty (s \<noteq> t))"
| "fmul (Finite s m) (Infty t) = (if m = 0 then NaN else Infty (s \<noteq> t))"
| "fmul a b = NaN"

fun fdiv :: "float \<Rightarrow> float \<Rightarrow> float" where
  "fdiv (Finite s m) (Finite t n) =
     (if n = 0 then (if m = 0 then NaN else Infty (s \<noteq> t))
      else fround (s \<noteq> t) (m * 2 ^ 149) n)"
| "fdiv (Infty s) (Finite t n) = Infty (s \<noteq> t)"
| "fdiv (Finite s m) (Infty t) = Finite (s \<noteq> t) 0"
| "fdiv a b = NaN"

text \<open>
  The literal with the decimal value \<open>p / q\<close> (\<open>q\<close> is not zero), such as \<open>0.06f\<close> for
  \<open>6 / 100\<close>: the nearest float.
\<close>

definition float_lit :: "nat \<Rightarrow> nat \<Rightarrow> float" where
  "float_lit p q = fround False (p * 2 ^ 149) q"

text \<open>The literal \<open>-1.0f\<close>.\<close>

definition float_minus_one :: float where
  "float_minus_one = fneg (float_lit 1 1)"

text \<open>\<open>std::numeric_limits<float>::max()\<close>, that is \<open>(2 - 2^-23) * 2^127\<close>.\<close>

definition FLT_MAX :: float where
  "FLT_MAX = Finite False ((2 ^ 24 - 1) * 2 ^ 253)"

text \<open>\<open>std::size_t\<close> is 64 bits wide; \<open>static_cast<float>\<close> rounds it to a float.\<close>

type_synonym size_t = "64 word"

definition float_of_size_t :: "size_t \<Rightarrow> float" where
  "float_of_size_t w = fround False (unat w * 2 ^ 149) 1"

text \<open>The bit pattern of a float (the quiet NaN stands for every NaN).\<close>

fun float_bits :: "float \<Rightarrow> 32 word" where
  "float_bits NaN = 0x7FC00000"
| "float_bits (Infty s) = (if s then 0xFF800000 else 0x7F800000)"
| "float_bits (Finite s n) =
     (let k = bit_length n - 24;
          e = (if n < 2 ^ 23 then 0 else k + 1);
          f = (if n < 2 ^ 23 then n else n div 2 ^ k - 2 ^ 23)
      in (if s then 0x80000000 else 0) + of_nat e * 0x800000 + of_nat f)"

section \<open>Data model\<close>

record bb_bounds =
  xmin :: float
  xmax :: float
  ymin :: float
  ymax :: float
  zmin :: float
  zmax :: float

record start_params =
  start_x :: float
  start_y :: float
  start_z :: float
  voxel_width :: float
  voxel_height :: float
  voxel_depth :: float

text \<open>The field \<open>value\<close> of the source is \<open>voxel_value\<close> here.\<close>

record voxel =
  xpos :: float
  ypos :: float
  zpos :: float
  voxel_value :: float

text \<open>The fields \<open>x\<close>, \<open>y\<close>, \<open>z\<close> of \<open>vec3f\<close>, and \<open>comp.v1\<close>, \<open>comp.v2\<close>, \<open>comp.v3\<close> of a triangle.\<close>

record vec3f =
  vec_x :: float
  vec_y :: float
  vec_z :: float

record triangle =
  comp_v1 :: vec3f
  comp_v2 :: vec3f
  comp_v3 :: vec3f

record PolyData =
  getTriangles :: "triangle list"
  getNormals :: "vec3f list"

record VoxelCarving =
  voxel_dim :: size_t
  voxel_slice :: size_t
  voxel_size :: size_t
  vox_array :: "float list"
  visual_hull :: PolyData
  params :: start_params

text \<open>
  What \<open>carve\<close> uses of OpenCV and of the other modules of the project is taken as given:
  an image is its size and its pixel access \<open>at\<close>, a camera is its mask and its
  projection \<open>project(cam, v)\<close>, and \<open>Segmentation::createDistMap\<close> and \<open>inside\<close>
  are arbitrary functions.
\<close>

type_synonym Point2f = "float \<times> float"

type_synonym Size = "int \<times> int"

type_synonym uchar = "8 word"

record 'a Mat =
  Mat_size :: Size
  Mat_at :: "Point2f \<Rightarrow> 'a"

record Camera =
  getMask :: "uchar Mat"
  project :: "voxel \<Rightarrow> Point2f"

record extern =
  createDistMap :: "uchar Mat \<Rightarrow> float Mat"
  inside :: "Point2f \<Rightarrow> Size \<Rightarrow> bool"

text \<open>
  A write outside the voxel array is undefined behaviour and a failed \<open>assert\<close> aborts
  the process (assertions are taken as enabled): both are error values.
\<close>

datatype error = OutOfBounds | AssertionFailed

section \<open>The bounding-volume parameters\<close>

text \<open>\<open>calcStartParameter\<close> reads the member \<open>voxel_dim_\<close>, its first argument here.\<close>

definition calcStartParameter :: "size_t \<Rightarrow> bb_bounds \<Rightarrow> start_params" where
  "calcStartParameter vdim bbox =
     (let MARGIN_X = float_lit 6 100;
          MARGIN_Y = float_lit 20 100;
          bb_width = fmul (fabs (fsub (xmax bbox) (xmin bbox)))
                       (fadd (float_lit 1 1) (fmul (float_lit 2 1) MARGIN_X));
          bb_height = fmul (fabs (fsub (ymax bbox) (ymin bbox)))
                        (fadd (float_lit 1 1) (fmul (float_lit 2 1) MARGIN_Y));
          bb_depth = fabs (fsub (zmax bbox) (zmin bbox));
          offset_x = fdiv (fsub bb_width (fabs (fsub (xmax bbox) (xmin bbox)))) (float_lit 2 1);
          offset_y = fdiv (fsub bb_height (fabs (fsub (ymax bbox) (ymin bbox)))) (float_lit 2 1)
      in \<lparr> start_x = fsub (xmin bbox) offset_x,
           start_y = fsub (ymin bbox) offset_y,
           start_z = float_lit 0 1,
           voxel_width = fdiv bb_width (float_of_size_t vdim),
           voxel_height = fdiv bb_height (float_of_size_t vdim),
           voxel_depth = fdiv bb_depth (float_of_size_t vdim) \<rparr>)"

section \<open>The voxel field\<close>

text \<open>
  The constructor. The members are initialised in the order of the initialiser list, so
  \<open>calcStartParameter\<close> reads the \<open>voxel_dim_\<close> just set; \<open>make_unique\<close> is taken to
  succeed.
\<close>

definition VoxelCarving_new :: "bb_bounds \<Rightarrow> size_t \<Rightarrow> VoxelCarving" where
  "VoxelCarving_new bbox vdim =
     \<lparr> voxel_dim = vdim,
       voxel_slice = vdim * vdim,
       voxel_size = vdim * vdim * vdim,
       vox_array = replicate (unat (vdim * vdim * vdim)) FLT_MAX,
       visual_hull = \<lparr> getTriangles = [], getNormals = [] \<rparr>,
       params = calcStartParameter vdim bbox \<rparr>"

definition calcVoxelPosInCamViewFrustum ::
    "VoxelCarving \<Rightarrow> size_t \<Rightarrow> size_t \<Rightarrow> size_t \<Rightarrow> voxel" where
  "calcVoxelPosInCamViewFrustum self i j k =
     \<lparr> xpos = fadd (start_x (params self)) (fmul (float_of_size_t k) (voxel_width (params self))),
       ypos = fadd (start_y (params self)) (fmul (float_of_size_t j) (voxel_height (params self))),
       zpos = fadd (start_z (params self)) (fmul (float_of_size_t i) (voxel_depth (params self))),
       voxel_value = float_lit 1 1 \<rparr>"

section \<open>Carving\<close>

text \<open>The loop \<open>for (std::size_t i = lo; i < n; ++i)\<close> over a state that may fail.\<close>

function for_upto ::
    "(size_t \<Rightarrow> 's \<Rightarrow> error + 's) \<Rightarrow> size_t \<Rightarrow> size_t \<Rightarrow> 's \<Rightarrow> error + 's" where
  "for_upto body i n s =
     (if i < n
      then (case body i s of Inl e \<Rightarrow> Inl e | Inr s' \<Rightarrow> for_upto body (i + 1) n s')
      else Inr s)"
  by pat_completeness auto
termination
proof (relation "measure (\<lambda>(body, i, n, s). unat n - unat i)")
  show "wf (measure (\<lambda>(body, i, n, s). unat n - unat i))"
    by simp
next
  fix body :: "size_t \<Rightarrow> 's \<Rightarrow> error + 's" and i n :: size_t and s x2 :: 's
  assume "i < n"
  then have "unat i < unat n"
    by (simp add: word_less_nat_alt)
  moreover have "unat n < 2 ^ LENGTH(64)"
    by (rule unsigned_less)
  ultimately have "unat i + unat (1 :: size_t) < 2 ^ LENGTH(64)"
    by simp
  then have "unat (i + 1) = unat i + 1"
    by (simp add: unat_add_lem [THEN iffD1])
  with \<open>unat i < unat n\<close>
  show "((body, i + 1, n, x2), (body, i, n, s))
      \<in> measure (\<lambda>(body, i, n, s). unat n - unat i)"
    by simp
qed

declare for_upto.simps [simp del]

text \<open>The distance one camera contributes to the voxel \<open>v\<close> (lines 66 to 73).\<close>

definition voxel_dist ::
    "extern \<Rightarrow> Camera \<Rightarrow> uchar Mat \<Rightarrow> float Mat \<Rightarrow> Size \<Rightarrow> voxel \<Rightarrow> float" where
  "voxel_dist ext cam Mask DistImage img_size v =
     (let coord = project cam v
      in if inside ext coord img_size
         then (let dist = Mat_at DistImage coord
               in if Mat_at Mask coord = 0 then fmul dist float_minus_one else dist)
         else float_minus_one)"

text \<open>The body of the innermost loop, on the voxel array.\<close>

definition carve_voxel ::
    "extern \<Rightarrow> Camera \<Rightarrow> uchar Mat \<Rightarrow> float Mat \<Rightarrow> Size \<Rightarrow> VoxelCarving \<Rightarrow>
     size_t \<Rightarrow> size_t \<Rightarrow> size_t \<Rightarrow> float list \<Rightarrow> error + float list" where
  "carve_voxel ext cam Mask DistImage img_size self i j k vox =
     (let v = calcVoxelPosInCamViewFrustum self i j k;
          dist = voxel_dist ext cam Mask DistImage img_size v;
          idx = k + j * voxel_dim self + i * voxel_slice self
      in if unat idx < length vox
         then Inr (if flt dist (vox ! unat idx) then vox[unat idx := dist] else vox)
         else Inl OutOfBounds)"

definition carve :: "extern \<Rightarrow> Camera \<Rightarrow> VoxelCarving \<Rightarrow> error + VoxelCarving" where
  "carve ext cam self =
     (let Mask = getMask cam;
          DistImage = createDistMap ext Mask;
          img_size = Mat_size Mask
      in case for_upto (\<lambda>i. for_upto (\<lambda>j. for_upto (\<lambda>k.
                carve_voxel ext cam Mask DistImage img_size self i j k)
                0 (voxel_dim self)) 0 (voxel_dim self)) 0 (voxel_dim self) (vox_array self)
         of Inl e \<Rightarrow> Inl e
          | Inr vox \<Rightarrow> Inr (self\<lparr>vox_array := vox\<rparr>))"

text \<open>
  A sequence of \<open>carve\<close> calls on one object: one call per camera, in the order of
  the list, stopping at the first failure.
\<close>

fun carve_all :: "extern \<Rightarrow> Camera list \<Rightarrow> VoxelCarving \<Rightarrow> error + VoxelCarving" where
  "carve_all ext [] self = Inr self"
| "carve_all ext (cam # cams) self =
     (case carve ext cam self of Inl e \<Rightarrow> Inl e | Inr self' \<Rightarrow> carve_all ext cams self')"

section \<open>Surface normals, extraction and export\<close>

definition calcSurfaceNormal :: "vec3f \<Rightarrow> vec3f \<Rightarrow> vec3f \<Rightarrow> vec3f" where
  "calcSurfaceNormal a b c =
     \<lparr> vec_x = fsub (fmul (fsub (vec_y b) (vec_y a)) (fsub (vec_z c) (vec_z a)))
                    (fmul (fsub (vec_y c) (vec_y a)) (fsub (vec_z b) (vec_z a))),
       vec_y = fsub (fmul (fsub (vec_z b) (vec_z a)) (fsub (vec_x c) (vec_x a)))
                    (fmul (fsub (vec_x b) (vec_x a)) (fsub (vec_z c) (vec_z a))),
       vec_z = fsub (fmul (fsub (vec_x b) (vec_x a)) (fsub (vec_y c) (vec_y a)))
                    (fmul (fsub (vec_x c) (vec_x a)) (fsub (vec_y b) (vec_y a))) \<rparr>"

text \<open>
  The loop over the triangles appends to \<open>normals\<close>, which starts empty:
  \<open>reserve\<close> allocates room and leaves the vector empty.
\<close>

fun calcSurfaceNormals_loop :: "triangle list \<Rightarrow> vec3f list \<Rightarrow> vec3f list" where
  "calcSurfaceNormals_loop [] normals = normals"
| "calcSurfaceNormals_loop (tri # tris) normals =
     calcSurfaceNormals_loop tris
       (normals @ [calcSurfaceNormal (comp_v1 tri) (comp_v2 tri) (comp_v3 tri)])"

definition calcSurfaceNormals :: "triangle list \<Rightarrow> vec3f list" where
  "calcSurfaceNormals tris = calcSurfaceNormals_loop tris []"

text \<open>
  The isosurface extractor is taken as given: a function of the arguments of
  \<open>setParams\<close>, in the order of the call, and of the voxel array, to the triangles.
\<close>

type_synonym MarchingCubes =
  "float \<Rightarrow> float \<Rightarrow> float \<Rightarrow> float \<Rightarrow> float \<Rightarrow> float \<Rightarrow> float \<Rightarrow>
   32 word \<Rightarrow> 32 word \<Rightarrow> 32 word \<Rightarrow> float list \<Rightarrow> triangle list"

text \<open>\<open>createVisualHull\<close> returns the mesh and stores it in the object.\<close>

definition createVisualHull :: "MarchingCubes \<Rightarrow> VoxelCarving \<Rightarrow> PolyData \<times> VoxelCarving" where
  "createVisualHull mc self =
     (let vd = ucast (voxel_dim self);
          triangles = mc (start_x (params self)) (start_z (params self)) (start_y (params self))
                        (voxel_width (params self)) (voxel_depth (params self))
                        (voxel_height (params self)) (float_lit 0 1) vd vd vd (vox_array self);
          mesh = (visual_hull self)\<lparr> getTriangles := triangles,
                                       getNormals := calcSurfaceNormals triangles \<rparr>
      in (mesh, self\<lparr>visual_hull := mesh\<rparr>))"

text \<open>
  \<open>saveASOBJ\<close> is taken as given, as a function on the state \<open>'fs\<close> of the disk.
\<close>

definition exportToDisk ::
    "(string \<Rightarrow> triangle list \<Rightarrow> vec3f list \<Rightarrow> 'fs \<Rightarrow> 'fs) \<Rightarrow> VoxelCarving \<Rightarrow> 'fs \<Rightarrow> error + 'fs" where
  "exportToDisk saveASOBJ self fs =
     (if 0 < length (getTriangles (visual_hull self))
      then Inr (saveASOBJ ''export.obj'' (getTriangles (visual_hull self))
                  (getNormals (visual_hull self)) fs)
      else Inl AssertionFailed)"

section \<open>Notions used in the statements\<close>

text \<open>
  \<open>std::min(a, b)\<close> of the standard library: \<open>b\<close> when \<open>b < a\<close>, else \<open>a\<close>.
\<close>

definition std_min :: "float \<Rightarrow> float \<Rightarrow> float" where
  "std_min a b = (if flt b a then b else a)"

text \<open>
  An object is well formed when its sizes are as the constructor computes them, the
  voxel array has \<open>voxel_dim^3\<close> cells, and that number fits in \<open>std::size_t\<close>.
\<close>

definition wf_carving :: "VoxelCarving \<Rightarrow> bool" where
  "wf_carving self =
     (unat (voxel_dim self) * unat (voxel_dim self) * unat (voxel_dim self) < 2 ^ 64
      \<and> voxel_slice self = voxel_dim self * voxel_dim self
      \<and> voxel_size self = voxel_dim self * voxel_dim self * voxel_dim self
      \<and> length (vox_array self) = unat (voxel_dim self) * unat (voxel_dim self) * unat (voxel_dim self))"

text \<open>
  The distance a camera contributes to the cell at the linear index \<open>p\<close>, that is to
  the voxel at the grid coordinates \<open>i = p div d^2\<close>, \<open>j = p div d mod d\<close>,
  \<open>k = p mod d\<close>.
\<close>

definition cell_dist :: "extern \<Rightarrow> Camera \<Rightarrow> VoxelCarving \<Rightarrow> nat \<Rightarrow> float" where
  "cell_dist ext cam self p =
     (let d = unat (voxel_dim self); Mask = getMask cam
      in voxel_dist ext cam Mask (createDistMap ext Mask) (Mat_size Mask)
           (calcVoxelPosInCamViewFrustum self
              (of_nat (p div (d * d))) (of_nat (p div d mod d)) (of_nat (p mod d))))"

text \<open>
  The voxel array once the loops of \<open>carve\<close> have gone through the cells below \<open>m\<close>,
  and once they have gone through all of them.
\<close>

definition carve_upto ::
    "extern \<Rightarrow> Camera \<Rightarrow> VoxelCarving \<Rightarrow> nat \<Rightarrow> float list \<Rightarrow> float list" where
  "carve_upto ext cam self m vox =
     map (\<lambda>p. if p < m then std_min (vox ! p) (cell_dist ext cam self p) else vox ! p)
       [0..<length vox]"

definition carve_field ::
    "extern \<Rightarrow> Camera \<Rightarrow> VoxelCarving \<Rightarrow> float list \<Rightarrow> float list" where
  "carve_field ext cam self vox =
     map (\<lambda>p. std_min (vox ! p) (cell_dist ext cam self p)) [0..<length vox]"

text \<open>The effect of \<open>std_min\<close> on the value of the cell: a NaN is passed over.\<close>

definition min_units :: "float \<Rightarrow> int \<Rightarrow> int" where
  "min_units b u = (if is_nan b then u else min u (units b))"

text \<open>Not a NaN, and the sign is clear.\<close>

definition nonneg :: "float \<Rightarrow> bool" where
  "nonneg a = (a = Infty False \<or> (\<exists>n. a = Finite False n))"

section \<open>Concrete inputs\<close>

text \<open>The bounding box from 0 to 10 on every axis.\<close>

definition box_0_10 :: bb_bounds where
  "box_0_10 = \<lparr> xmin = float_lit 0 1, xmax = float_lit 10 1,
                 ymin = float_lit 0 1, ymax = float_lit 10 1,
                 zmin = float_lit 0 1, zmax = float_lit 10 1 \<rparr>"

definition box_reversed :: bb_bounds where
  "box_reversed = \<lparr> xmin = float_lit 10 1, xmax = float_lit 0 1,
                     ymin = float_lit 10 1, ymax = float_lit 10 1,
                     zmin = float_lit 0 1, zmax = float_lit 10 1 \<rparr>"

text \<open>
  A distance map that is 3.0 everywhere, an image that contains the points of
  non-negative abscissa, a camera that sees foreground everywhere and one that sees
  background everywhere.
\<close>

definition ext_demo :: extern where
  "ext_demo = \<lparr> createDistMap = (\<lambda>Mask. \<lparr> Mat_size = Mat_size Mask,
                                              Mat_at = (\<lambda>coord. float_lit 3 1) \<rparr>),
                 inside = (\<lambda>coord img_size. fle (float_lit 0 1) (fst coord)) \<rparr>"

definition cam_fg :: Camera where
  "cam_fg = \<lparr> getMask = \<lparr> Mat_size = (4, 4), Mat_at = (\<lambda>coord. 255) \<rparr>,
               project = (\<lambda>v. (xpos v, ypos v)) \<rparr>"

definition cam_bg :: Camera where
  "cam_bg = \<lparr> getMask = \<lparr> Mat_size = (4, 4), Mat_at = (\<lambda>coord. 0) \<rparr>,
               project = (\<lambda>v. (xpos v, zpos v)) \<rparr>"

text \<open>The triangle with the vertices \<open>(0,0,0)\<close>, \<open>(1,0,0)\<close> and \<open>(0,1,0)\<close>.\<close>

definition unit_triangle :: triangle where
  "unit_triangle =
     \<lparr> comp_v1 = \<lparr> vec_x = float_lit 0 1, vec_y = float_lit 0 1, vec_z = float_lit 0 1 \<rparr>,
       comp_v2 = \<lparr> vec_x = float_lit 1 1, vec_y = float_lit 0 1, vec_z = float_lit 0 1 \<rparr>,
       comp_v3 = \<lparr> vec_x = float_lit 0 1, vec_y = float_lit 1 1, vec_z = float_lit 0 1 \<rparr> \<rparr>"

text \<open>A disk is the list of the files written to it.\<close>

definition save_demo ::
    "string \<Rightarrow> triangle list \<Rightarrow> vec3f list
      \<Rightarrow> (string \<times> triangle list \<times> vec3f list) list
      \<Rightarrow> (string \<times> triangle list \<times> vec3f list) list" where
  "save_demo name tris normals fs = (name, tris, normals) # fs"

definition mc_demo :: MarchingCubes where
  "mc_demo ox oy oz sx sy sz isovalue nx ny nz vox = [unit_triangle]"

section \<open>Facts about the floating-point model\<close>

lemma float_lit_1: "float_lit 1 1 = Finite False (2 ^ 149)"
  by (simp add: float_lit_def fround_def Let_def bit_length.simps)

lemma float_lit_0: "float_lit 0 1 = Finite False 0"
  by (simp add: float_lit_def fround_def Let_def bit_length.simps)

lemma float_lit_2: "float_lit 2 1 = Finite False (2 ^ 150)"
  by (simp add: float_lit_def fround_def Let_def bit_length.simps)

lemma float_lit_3: "float_lit 3 1 = Finite False (3 * 2 ^ 149)"
  by (simp add: float_lit_def fround_def Let_def bit_length.simps)

lemmas float_lit_vals = float_lit_0 float_lit_1 float_lit_2 float_lit_3

lemmas float_lit_vals_Suc = float_lit_vals [unfolded One_nat_def]

lemma bit_length_bounds: "n < 2 ^ bit_length n"
proof (induction n rule: bit_length.induct)
  case (1 n)
  show ?case
  proof (cases "n = 0")
    case True
    then show ?thesis by (simp add: bit_length.simps)
  next
    case False
    with 1 have "n div 2 < 2 ^ bit_length (n div 2)" by simp
    then have "n < 2 * 2 ^ bit_length (n div 2)" by linarith
    with False show ?thesis by (simp add: bit_length.simps [of n])
  qed
qed

lemma bit_length_le: "n < 2 ^ k \<Longrightarrow> bit_length n \<le> k"
proof (induction n arbitrary: k rule: bit_length.induct)
  case (1 n)
  show ?case
  proof (cases "n = 0")
    case True
    then show ?thesis by (simp add: bit_length.simps)
  next
    case False
    with "1.prems" obtain k' where k: "k = Suc k'"
      by (cases k) auto
    with "1.prems" have "n div 2 < 2 ^ k'" by simp
    with 1 False have "bit_length (n div 2) \<le> k'" by simp
    with False k show ?thesis by (simp add: bit_length.simps [of n])
  qed
qed

lemma bit_length_lower: "0 < n \<Longrightarrow> 2 ^ (bit_length n - 1) \<le> n"
proof (induction n rule: bit_length.induct)
  case (1 n)
  show ?case
  proof (cases "n div 2 = 0")
    case True
    with "1.prems" have "n = 1" by (simp add: div_eq_0_iff) 
    then show ?thesis by (simp add: bit_length.simps)
  next
    case False
    with 1 have "2 ^ (bit_length (n div 2) - 1) \<le> n div 2" by simp
    then have "2 * 2 ^ (bit_length (n div 2) - 1) \<le> n" by linarith
    moreover from False have "0 < bit_length (n div 2)"
      by (simp add: bit_length.simps [of "n div 2"])
    then have "2 * (2::nat) ^ (bit_length (n div 2) - 1) = 2 ^ bit_length (n div 2)"
      by (cases "bit_length (n div 2)") simp_all
    ultimately show ?thesis
      using "1.prems" by (simp add: bit_length.simps [of n])
  qed
qed

lemma FLT_MAX_is_float: "is_float FLT_MAX"
  by (simp add: FLT_MAX_def bit_length.simps)

lemma finite_le_FLT_MAX:
  assumes "is_float (Finite s n)"
  shows "n \<le> (2 ^ 24 - 1) * 2 ^ 253"
proof -
  define k where "k = bit_length n - 24"
  from assms have n: "n < 2 ^ 277" and dv: "2 ^ k dvd n"
    by (simp_all add: k_def)
  from dv obtain m where m: "n = 2 ^ k * m" ..
  have "bit_length n \<le> 277"
    using n by (rule bit_length_le)
  then have k: "k \<le> 253" by (simp add: k_def)
  have "n < 2 ^ bit_length n" by (rule bit_length_bounds)
  also have "bit_length n \<le> k + 24" by (simp add: k_def)
  then have "(2::nat) ^ bit_length n \<le> 2 ^ (k + 24)"
    by (simp add: power_increasing)
  finally have "2 ^ k * m < 2 ^ k * 2 ^ 24"
    by (simp add: m power_add)
  then have "m < 2 ^ 24" by simp
  then have "m \<le> 2 ^ 24 - 1" by simp
  moreover have "(2::nat) ^ k \<le> 2 ^ 253"
    using k by (intro power_increasing) simp_all
  ultimately have "2 ^ k * m \<le> 2 ^ 253 * (2 ^ 24 - 1)"
    by (intro mult_le_mono)
  then show ?thesis by (simp add: m mult.commute)
qed

lemma FLT_MAX_greatest: "is_float a \<Longrightarrow> is_finite a \<Longrightarrow> fle a FLT_MAX"
proof (cases a)
  case (Finite s n)
  assume "is_float a"
  with Finite have "n \<le> (2 ^ 24 - 1) * 2 ^ 253"
    using finite_le_FLT_MAX by simp
  then have "int n \<le> int ((2 ^ 24 - 1) * 2 ^ 253)"
    by (simp only: of_nat_le_iff)
  with Finite show ?thesis
    by (auto simp: fle_def is_nan_def FLT_MAX_def)
qed simp_all

lemma valof_FLT_MAX: "valof FLT_MAX = (2 - 1 / 2 ^ 23) * 2 ^ 127"
  by (simp add: valof_def FLT_MAX_def)

lemma FLT_MAX_not_nan: "\<not> is_nan FLT_MAX"
  by (simp add: is_nan_def FLT_MAX_def)

lemma fround_exact:
  assumes "is_float (Finite s n)" and "0 < q"
  shows "fround t (n * q) q = Finite t n"
proof -
  define k where "k = bit_length n - 24"
  from assms(1) have n: "n < 2 ^ 277" and "2 ^ k dvd n"
    by (simp_all add: k_def)
  then obtain m where m: "n = 2 ^ k * m" by (auto elim: dvdE)
  have pq: "n * q div q = n"
    using assms(2) by simp
  have e: "n * q = m * (q * 2 ^ k)"
    by (simp add: m)
  have pos: "0 < q * 2 ^ k"
    using assms(2) by simp
  have dv: "n * q div (q * 2 ^ k) = m"
    unfolding e using pos by simp
  have md: "n * q mod (q * 2 ^ k) = 0"
    unfolding e by simp
  have "m * 2 ^ k = n"
    by (simp add: m)
  with n pos show ?thesis
    unfolding fround_def Let_def pq k_def [symmetric] dv md by simp
qed

lemma fround_nonneg: "nonneg (fround False p q)"
  by (simp add: fround_def nonneg_def Let_def)

text \<open>Rounding a magnitude of at least one unit never gives zero.\<close>

lemma fround_pos:
  assumes "0 < q" and "q \<le> p"
  shows "fround s p q \<noteq> Finite s 0"
proof -
  define k where "k = bit_length (p div q) - 24"
  define d where "d = q * 2 ^ k"
  from assms have pq: "0 < p div q"
    by (simp add: div_greater_zero_iff)
  then have "2 ^ (bit_length (p div q) - 1) \<le> p div q"
    by (rule bit_length_lower)
  moreover have "(2::nat) ^ k \<le> 2 ^ (bit_length (p div q) - 1)"
    by (intro power_increasing) (simp_all add: k_def)
  ultimately have "2 ^ k \<le> p div q"
    by (rule order_trans [rotated])
  then have "q * 2 ^ k \<le> q * (p div q)"
    by simp
  also have "\<dots> \<le> p"
    by simp
  finally have "d \<le> p"
    by (simp add: d_def)
  moreover have "0 < d"
    using assms by (simp add: d_def)
  ultimately have m: "0 < p div d"
    by (simp add: div_greater_zero_iff)
  then show ?thesis
    by (simp add: fround_def Let_def k_def [symmetric] d_def [symmetric])
qed

text \<open>Rounding a magnitude below \<open>2^276\<close> units does not overflow.\<close>

lemma fround_finite:
  assumes "0 < q" and "p div q < 2 ^ 276"
  shows "\<exists>n. fround s p q = Finite s n"
proof -
  define k where "k = bit_length (p div q) - 24"
  define m where "m = p div (q * 2 ^ k)"
  have "m = p div q div 2 ^ k"
    by (simp add: m_def div_mult2_eq)
  then have mk: "m * 2 ^ k \<le> p div q"
    by simp
  have k: "2 ^ k \<le> p div q + 1"
  proof (cases "p div q = 0")
    case True
    then show ?thesis by (simp add: k_def bit_length.simps)
  next
    case False
    then have "2 ^ (bit_length (p div q) - 1) \<le> p div q"
      by (intro bit_length_lower) simp
    moreover have "(2::nat) ^ k \<le> 2 ^ (bit_length (p div q) - 1)"
      by (intro power_increasing) (simp_all add: k_def)
    ultimately show ?thesis by linarith
  qed
  have "(m + 1) * 2 ^ k = m * 2 ^ k + 2 ^ k"
    by (simp add: algebra_simps)
  also have "\<dots> \<le> p div q + (p div q + 1)"
    using mk k by (rule add_mono)
  also have "\<dots> < 2 ^ 277"
    using assms(2) by simp
  finally have b1: "(m + 1) * 2 ^ k < 2 ^ 277" .
  have "m * 2 ^ k \<le> (m + 1) * 2 ^ k"
    by simp
  then have b0: "m * 2 ^ k < 2 ^ 277"
    using b1 by (rule le_less_trans)
  from b0 b1 show ?thesis
    unfolding fround_def Let_def k_def [symmetric] m_def [symmetric]
    by (auto simp: not_le [symmetric] simp del: not_le)
qed

lemma fround_not_nan: "fround s p q \<noteq> NaN"
  by (simp add: fround_def Let_def)

lemma fround_is_float:
  assumes "0 < q"
  shows "is_float (fround s p q)"
proof -
  define x where "x = p div q"
  define k where "k = bit_length x - 24"
  define m where "m = p div (q * 2 ^ k)"
  define r where "r = p mod (q * 2 ^ k)"
  define m' where "m' = (if 2 * r < q * 2 ^ k then m else if q * 2 ^ k < 2 * r then m + 1
                else if even m then m else m + 1)"
  have "m = x div 2 ^ k"
    by (simp add: m_def x_def div_mult2_eq)
  moreover have "x < 2 ^ (24 + k)"
  proof -
    have "x < 2 ^ bit_length x"
      by (rule bit_length_bounds)
    also have "(2::nat) ^ bit_length x \<le> 2 ^ (24 + k)"
      by (intro power_increasing) (simp_all add: k_def)
    finally show ?thesis .
  qed
  ultimately have "m < 2 ^ 24"
    by (simp add: less_mult_imp_div_less power_add)
  then have m': "m' \<le> 2 ^ 24"
    by (simp add: m'_def)
  have fl: "is_float (Finite s (m' * 2 ^ k))" if lt: "m' * 2 ^ k < 2 ^ 277"
  proof (cases "m' = 2 ^ 24")
    case True
    then have "m' * 2 ^ k < 2 ^ (25 + k)"
      by (simp add: power_add)
    then have "bit_length (m' * 2 ^ k) \<le> 25 + k"
      by (rule bit_length_le)
    then have "bit_length (m' * 2 ^ k) - 24 \<le> k + 1"
      by simp
    then have "(2::nat) ^ (bit_length (m' * 2 ^ k) - 24) dvd 2 ^ (k + 1)"
      by (rule le_imp_power_dvd)
    moreover have "(2::nat) ^ (k + 1) dvd m' * 2 ^ k"
      by (simp add: True)
    ultimately have "2 ^ (bit_length (m' * 2 ^ k) - 24) dvd m' * 2 ^ k"
      by (rule dvd_trans)
    with lt show ?thesis
      by simp
  next
    case False
    with m' have "m' < 2 ^ 24"
      by simp
    then have "m' * 2 ^ k < 2 ^ 24 * 2 ^ k"
      by simp
    then have "m' * 2 ^ k < 2 ^ (24 + k)"
      by (simp add: power_add)
    then have "bit_length (m' * 2 ^ k) \<le> 24 + k"
      by (rule bit_length_le)
    then have "bit_length (m' * 2 ^ k) - 24 \<le> k"
      by simp
    then have "(2::nat) ^ (bit_length (m' * 2 ^ k) - 24) dvd 2 ^ k"
      by (rule le_imp_power_dvd)
    then have "2 ^ (bit_length (m' * 2 ^ k) - 24) dvd m' * 2 ^ k"
      by (rule dvd_mult)
    with lt show ?thesis
      by simp
  qed
  have "fround s p q = (if 2 ^ 277 \<le> m' * 2 ^ k then Infty s else Finite s (m' * 2 ^ k))"
    unfolding fround_def Let_def x_def [symmetric] k_def [symmetric] m_def [symmetric]
      r_def [symmetric] m'_def [symmetric] ..
  with fl show ?thesis
    by (simp add: not_le)
qed

lemma fneg_is_float: "is_float (fneg a) = is_float a"
  by (cases a) simp_all

text \<open>The operations stay within the binary32 numbers.\<close>

lemma float_ops_closed:
  "is_float (fadd a b)" "is_float (fsub a b)" "is_float (fmul a b)"
  "is_float (fdiv a b)"
  "is_float a \<Longrightarrow> is_float (fabs a)"
  "0 < q \<Longrightarrow> is_float (float_lit p q)" "is_float (float_of_size_t w)"
proof -
  show add: "is_float (fadd a b)" for a b
    by (cases a; cases b) (simp_all add: Let_def fround_is_float bit_length.simps)
  show "is_float (fsub a b)"
    by (simp add: fsub_def add)
  show "is_float (fmul a b)"
    by (cases a; cases b) (simp_all add: fround_is_float)
  show "is_float (fdiv a b)"
    by (cases a; cases b) (auto simp: fround_is_float bit_length.simps)
  show "is_float (fabs a)" if "is_float a"
    using that by (cases a) simp_all
  show "is_float (float_lit p q)" if "0 < q"
    using that by (simp add: float_lit_def fround_is_float)
  show "is_float (float_of_size_t w)"
    by (simp add: float_of_size_t_def fround_is_float)
qed

lemma float_bits_examples:
  "float_bits (float_lit 0 1) = 0"
  "float_bits (float_lit 1 1) = 0x3F800000"
  "float_bits float_minus_one = 0xBF800000"
  "float_bits (float_lit 1 10) = 0x3DCCCCCD"
  "float_bits (float_lit 6 100) = 0x3D75C28F"
  "float_bits (float_lit 20 100) = 0x3E4CCCCD"
  "float_bits FLT_MAX = 0x7F7FFFFF"
  "float_bits (fround False 1 1) = 1"
  "float_bits (float_lit 1 (10 ^ 46)) = 0"
  "float_bits (float_lit (10 ^ 39) 1) = 0x7F800000"
  by (simp_all add: float_minus_one_def float_lit_def FLT_MAX_def fround_def Let_def bit_length.simps)

lemma float_minus_one_eq: "float_minus_one = Finite True (2 ^ 149)"
  unfolding float_minus_one_def float_lit_1 by simp

lemma valof_float_minus_one: "valof float_minus_one = - 1"
  by (simp add: float_minus_one_eq valof_def)

lemma fmul_minus_one:
  assumes "is_float a"
  shows "fmul a float_minus_one = fneg a"
proof (cases a)
  case (Finite s n)
  with assms have "fround (\<not> s) (n * 2 ^ 149) (2 ^ 149) = Finite (\<not> s) n"
    by (intro fround_exact) simp_all
  with Finite show ?thesis
    by (simp add: float_minus_one_eq)
qed (simp_all add: float_minus_one_eq)

lemma float_of_size_t_pos:
  assumes "0 < unat w"
  shows "\<exists>n. 0 < n \<and> float_of_size_t w = Finite False n"
proof -
  have "unat w < 2 ^ 64"
    using unsigned_less [of w] by simp
  then have "unat w * 2 ^ 149 < 2 ^ 64 * 2 ^ 149"
    by (simp only: mult_less_cancel2) simp
  also have "\<dots> \<le> (2::nat) ^ 276"
    by simp
  finally have "unat w * 2 ^ 149 div 1 < 2 ^ 276"
    by simp
  then obtain n where n: "fround False (unat w * 2 ^ 149) 1 = Finite False n"
    using fround_finite [of 1 "unat w * 2 ^ 149" False] by auto
  have "1 \<le> unat w * 2 ^ 149"
    using assms by simp
  then have "fround False (unat w * 2 ^ 149) 1 \<noteq> Finite False 0"
    by (intro fround_pos) simp_all
  with n have "0 < n"
    by auto
  with n show ?thesis
    by (auto simp: float_of_size_t_def)
qed

lemma fsub_finite_not_nan:
  assumes "is_finite a" and "is_finite b"
  shows "fsub a b \<noteq> NaN"
proof -
  from assms obtain s m t n where "a = Finite s m" "b = Finite t n"
    by (cases a; cases b) simp_all
  then show ?thesis
    by (simp add: fsub_def Let_def fround_not_nan)
qed

lemma fabs_nonneg: "a \<noteq> NaN \<Longrightarrow> nonneg (fabs a)"
  by (cases a) (simp_all add: nonneg_def)

lemma fmul_nonneg:
  assumes "nonneg a" and "0 < n"
  shows "nonneg (fmul a (Finite False n))"
proof (cases a)
  case (Finite s m)
  with assms(1) have "s = False"
    by (simp add: nonneg_def)
  with Finite show ?thesis
    by (simp add: fround_nonneg)
next
  case (Infty s)
  with assms show ?thesis
    by (simp add: nonneg_def)
next
  case NaN
  with assms show ?thesis
    by (simp add: nonneg_def)
qed

lemma fdiv_nonneg:
  assumes "nonneg a" and "0 < n"
  shows "nonneg (fdiv a (Finite False n))"
proof (cases a)
  case (Finite s m)
  with assms(1) have "s = False"
    by (simp add: nonneg_def)
  with Finite assms(2) show ?thesis
    by (simp add: fround_nonneg)
next
  case (Infty s)
  with assms show ?thesis
    by (simp add: nonneg_def)
next
  case NaN
  with assms show ?thesis
    by (simp add: nonneg_def)
qed

lemma nonneg_fle: "nonneg a \<Longrightarrow> fle (float_lit 0 1) a"
  unfolding float_lit_0 by (auto simp: nonneg_def fle_def is_nan_def)

lemma is_float_units_inj:
  assumes "is_float a" "is_float b" and "feq a b" and "units a \<noteq> 0"
  shows "a = b"
proof -
  have lt: "int n < 2 ^ 277" if "n < 2 ^ 277" for n :: nat
  proof -
    from that have "int n < int (2 ^ 277)"
      by (simp only: of_nat_less_iff)
    then show ?thesis
      by simp
  qed
  from assms(3) have "a \<noteq> NaN" "b \<noteq> NaN" "units a = units b"
    by (simp_all add: feq_def is_nan_def)
  with assms(1,2,4) show ?thesis
    by (cases a; cases b) (auto dest!: lt split: if_splits)
qed

lemma std_min_not_nan: "\<not> is_nan a \<Longrightarrow> \<not> is_nan (std_min a b)"
  by (simp add: std_min_def flt_def)

lemma std_min_fle: "\<not> is_nan a \<Longrightarrow> fle (std_min a b) a"
  by (simp add: std_min_def flt_def fle_def)

lemma std_min_idem: "std_min (std_min a b) b = std_min a b"
  by (simp add: std_min_def flt_def)

lemma fold_std_min_not_nan:
  "\<not> is_nan a \<Longrightarrow> \<not> is_nan (fold (\<lambda>c x. std_min x (f c)) cs a)"
  by (induction cs arbitrary: a) (simp_all add: std_min_not_nan)

lemma std_min_units:
  "\<not> is_nan a \<Longrightarrow> units (std_min a b) = min_units b (units a)"
  by (simp add: std_min_def flt_def min_units_def)

lemma fold_std_min_units:
  "\<not> is_nan a \<Longrightarrow>
     units (fold (\<lambda>c x. std_min x (f c)) cs a) = fold (\<lambda>c. min_units (f c)) cs (units a)"
  by (induction cs arbitrary: a) (simp_all add: std_min_units std_min_not_nan)

lemma min_units_commute: "min_units b \<circ> min_units c = min_units c \<circ> min_units b"
  by (rule ext) (simp add: min_units_def min.left_commute min.commute)

lemma fold_min_units_mset:
  assumes "mset cs1 = mset cs2"
  shows "fold (\<lambda>c. min_units (f c)) cs1 = fold (\<lambda>c. min_units (f c)) cs2"
  using assms by (intro fold_multiset_equiv) (simp_all add: min_units_commute)

lemma fold_std_min_feq:
  assumes "\<not> is_nan a" and "mset cs1 = mset cs2"
  shows "feq (fold (\<lambda>c x. std_min x (f c)) cs1 a) (fold (\<lambda>c x. std_min x (f c)) cs2 a)"
  using assms
  by (simp add: feq_def fold_std_min_not_nan fold_std_min_units fold_min_units_mset [of cs1 cs2])

lemma fold_std_min_mem:
  "fold (\<lambda>c x. std_min x (f c)) cs a \<in> insert a (f ` set cs)"
proof (induction cs arbitrary: a)
  case Nil
  then show ?case by simp
next
  case (Cons c cs)
  from Cons.IH [of "std_min a (f c)"] show ?case
    by (auto simp: std_min_def split: if_splits)
qed

section \<open>Index arithmetic\<close>

lemma unat_square:
  fixes d :: size_t
  assumes "unat d * unat d * unat d < 2 ^ 64"
  shows "unat (d * d) = unat d * unat d"
proof -
  have "unat d * unat d \<le> unat d * unat d * unat d"
    by (cases "unat d") simp_all
  then have "unat d * unat d < 2 ^ 64"
    using assms by (rule le_less_trans)
  then have "unat d * unat d < 2 ^ LENGTH(64)"
    by simp
  then show ?thesis
    by (simp only: unat_mult_lem [THEN iffD1])
qed

lemma unat_cube:
  fixes d :: size_t
  assumes "unat d * unat d * unat d < 2 ^ 64"
  shows "unat (d * d * d) = unat d * unat d * unat d"
proof -
  have "unat (d * d) * unat d < 2 ^ LENGTH(64)"
    using assms by (simp add: unat_square)
  then have "unat (d * d * d) = unat (d * d) * unat d"
    by (simp only: unat_mult_lem [THEN iffD1])
  with assms show ?thesis
    by (simp add: unat_square)
qed

lemma idx_inner_bound:
  fixes d :: nat
  assumes "j < d" "k < d"
  shows "j * d + k < d * d"
proof -
  from assms have "j * d + k < j * d + d" by simp
  also have "\<dots> = Suc j * d" by simp
  also from assms have "\<dots> \<le> d * d" by (intro mult_le_mono) simp_all
  finally show ?thesis .
qed

lemma idx_bound:
  fixes d :: nat
  assumes "i < d" "j < d" "k < d"
  shows "i * (d * d) + j * d + k < d * d * d"
proof -
  have "i * (d * d) + (j * d + k) < i * (d * d) + d * d"
    using idx_inner_bound [OF assms(2,3)] by simp
  also have "\<dots> = Suc i * (d * d)" by simp
  also from assms have "\<dots> \<le> d * (d * d)" by (intro mult_le_mono) simp_all
  finally show ?thesis by (simp add: mult.assoc add.assoc)
qed

lemma idx_decode:
  fixes d :: nat
  assumes "i < d" "j < d" "k < d"
  shows "(i * (d * d) + j * d + k) div (d * d) = i"
    and "(i * (d * d) + j * d + k) div d mod d = j"
    and "(i * (d * d) + j * d + k) mod d = k"
proof -
  from assms have d: "0 < d" by simp
  from d have "d * d \<noteq> 0" "d \<noteq> 0"
    by simp_all
  then have "(j * d + k + i * (d * d)) div (d * d) = i + (j * d + k) div (d * d)"
    by (intro div_mult_self1)
  also have "(j * d + k) div (d * d) = 0"
    using idx_inner_bound [OF assms(2,3)] by simp
  finally show "(i * (d * d) + j * d + k) div (d * d) = i"
    by (simp add: ac_simps)
  have e: "i * (d * d) + j * d + k = k + (i * d + j) * d"
    by (simp add: algebra_simps)
  have "(k + (i * d + j) * d) div d = i * d + j + k div d"
    using \<open>d \<noteq> 0\<close> by (intro div_mult_self1)
  with assms have q: "(i * (d * d) + j * d + k) div d = i * d + j"
    by (simp add: e)
  have "(i * (d * d) + j * d + k) div d mod d = (i * d + j) mod d"
    by (simp only: q)
  also have "\<dots> = (j + i * d) mod d"
    by (simp only: add.commute)
  also have "\<dots> = j mod d"
    by (simp only: mod_mult_self1)
  also from assms have "\<dots> = j"
    by simp
  finally show "(i * (d * d) + j * d + k) div d mod d = j" .
  have "(i * (d * d) + j * d + k) mod d = (k + (i * d + j) * d) mod d"
    by (simp only: e)
  also have "\<dots> = k mod d"
    by (simp only: mod_mult_self1)
  also from assms have "\<dots> = k"
    by simp
  finally show "(i * (d * d) + j * d + k) mod d = k" .
qed

lemma idx_unat:
  fixes i j k vd :: size_t
  assumes ovf: "unat vd * unat vd * unat vd < 2 ^ 64"
    and "i < vd" "j < vd" "k < vd"
  shows "unat (k + j * vd + i * (vd * vd))
           = unat i * (unat vd * unat vd) + unat j * unat vd + unat k"
proof -
  define d where "d = unat vd"
  from assms(2-4) have lt: "unat i < d" "unat j < d" "unat k < d"
    by (simp_all add: d_def word_less_nat_alt)
  have total: "unat i * (d * d) + unat j * d + unat k < 2 ^ LENGTH(64)"
    using idx_bound [OF lt] ovf by (simp add: d_def)
  have sq: "unat (vd * vd) = d * d"
    using ovf by (simp add: d_def unat_square)
  have "unat i * unat (vd * vd) < 2 ^ LENGTH(64)"
    using total by (simp add: sq)
  then have a: "unat (i * (vd * vd)) = unat i * (d * d)"
    by (simp only: unat_mult_lem [THEN iffD1] sq)
  have "unat j * unat vd < 2 ^ LENGTH(64)"
    using total by (simp add: d_def)
  then have b: "unat (j * vd) = unat j * d"
    by (simp only: unat_mult_lem [THEN iffD1] d_def)
  have "unat k + unat (j * vd) < 2 ^ LENGTH(64)"
    using total by (simp add: b)
  then have c: "unat (k + j * vd) = unat k + unat j * d"
    by (simp only: unat_add_lem [THEN iffD1] b)
  have "unat (k + j * vd) + unat (i * (vd * vd)) < 2 ^ LENGTH(64)"
    using total by (simp add: a c)
  then have "unat (k + j * vd + i * (vd * vd)) = unat k + unat j * d + unat i * (d * d)"
    by (simp only: unat_add_lem [THEN iffD1] a c)
  then show ?thesis
    by (simp add: d_def)
qed

section \<open>The effect of carve\<close>

lemma for_upto_rule:
  assumes step: "\<And>i s. i < n \<Longrightarrow> I (unat i) s \<Longrightarrow> \<exists>s'. body i s = Inr s' \<and> I (Suc (unat i)) s'"
    and "lo \<le> n" and "I (unat lo) s"
  shows "\<exists>s'. for_upto body lo n s = Inr s' \<and> I (unat n) s'"
  using assms(2,3)
proof (induction "unat n - unat lo" arbitrary: lo s)
  case 0
  then have "unat lo = unat n"
    by (simp add: word_le_nat_alt)
  then have "lo = n"
    by (simp add: word_unat_eq_iff)
  with 0 show ?case
    by (simp add: for_upto.simps)
next
  case (Suc m)
  then have lt: "unat lo < unat n"
    by simp
  then have "lo < n"
    by (simp add: word_less_nat_alt)
  with step Suc.prems obtain s1 where s1: "body lo s = Inr s1" "I (Suc (unat lo)) s1"
    by blast
  have "unat n < 2 ^ LENGTH(64)"
    by (rule unsigned_less)
  with lt have "unat lo + unat (1 :: size_t) < 2 ^ LENGTH(64)"
    by simp
  then have suc: "unat (lo + 1) = Suc (unat lo)"
    by (simp add: unat_add_lem [THEN iffD1])
  with lt have "lo + 1 \<le> n"
    by (simp add: word_le_nat_alt)
  moreover from suc Suc.hyps(2) have "m = unat n - unat (lo + 1)"
    by simp
  moreover from suc s1 have "I (unat (lo + 1)) s1"
    by simp
  ultimately obtain s' where "for_upto body (lo + 1) n s1 = Inr s'" "I (unat n) s'"
    using Suc.hyps(1) by blast
  with \<open>lo < n\<close> s1 show ?case
    by (simp add: for_upto.simps [of body lo])
qed

lemma carve_upto_length [simp]: "length (carve_upto ext cam self m vox) = length vox"
  by (simp add: carve_upto_def)

lemma carve_upto_0 [simp]: "carve_upto ext cam self 0 vox = vox"
  by (simp add: carve_upto_def map_nth)

lemma carve_upto_nth:
  "q < length vox \<Longrightarrow> carve_upto ext cam self m vox ! q
     = (if q < m then std_min (vox ! q) (cell_dist ext cam self q) else vox ! q)"
  by (simp add: carve_upto_def)

lemma carve_voxel_step:
  assumes wf: "wf_carving self"
    and len: "length vox = length (vox_array self)"
    and "i < voxel_dim self" "j < voxel_dim self" "k < voxel_dim self"
    and p: "p = unat i * (unat (voxel_dim self) * unat (voxel_dim self))
              + unat j * unat (voxel_dim self) + unat k"
  shows "carve_voxel ext cam (getMask cam) (createDistMap ext (getMask cam))
           (Mat_size (getMask cam)) self i j k (carve_upto ext cam self p vox)
         = Inr (carve_upto ext cam self (Suc p) vox)"
proof -
  define d where "d = unat (voxel_dim self)"
  from assms(3-5) have lt: "unat i < d" "unat j < d" "unat k < d"
    by (simp_all add: d_def word_less_nat_alt)
  from wf have ovf: "d * d * d < 2 ^ 64"
    and slice: "voxel_slice self = voxel_dim self * voxel_dim self"
    and n: "length (vox_array self) = d * d * d"
    by (simp_all add: wf_carving_def d_def)
  have idx: "unat (k + j * voxel_dim self + i * voxel_slice self) = p"
    using idx_unat [OF ovf [unfolded d_def] assms(3-5)] by (simp add: slice p)
  have pn: "p < length vox"
    using idx_bound [OF lt] by (simp add: len n p d_def)
  have dec: "word_of_nat (p div (d * d)) = i" "word_of_nat (p div d mod d) = j"
      "word_of_nat (p mod d) = k"
    using idx_decode [OF lt] by (simp_all add: p d_def)
  have dist: "voxel_dist ext cam (getMask cam) (createDistMap ext (getMask cam))
      (Mat_size (getMask cam)) (calcVoxelPosInCamViewFrustum self i j k) = cell_dist ext cam self p"
    using dec by (simp add: cell_dist_def Let_def d_def)
  have old: "carve_upto ext cam self p vox ! p = vox ! p"
    using pn by (simp add: carve_upto_def)
  have "(if flt (cell_dist ext cam self p) (vox ! p)
         then (carve_upto ext cam self p vox)[p := cell_dist ext cam self p]
         else carve_upto ext cam self p vox) = carve_upto ext cam self (Suc p) vox"
  proof (rule nth_equalityI)
    show "length (if flt (cell_dist ext cam self p) (vox ! p)
         then (carve_upto ext cam self p vox)[p := cell_dist ext cam self p]
         else carve_upto ext cam self p vox) = length (carve_upto ext cam self (Suc p) vox)"
      by simp
  next
    fix q
    assume "q < length (if flt (cell_dist ext cam self p) (vox ! p)
         then (carve_upto ext cam self p vox)[p := cell_dist ext cam self p]
         else carve_upto ext cam self p vox)"
    then have q: "q < length vox"
      by (simp split: if_splits)
    with pn show "(if flt (cell_dist ext cam self p) (vox ! p)
         then (carve_upto ext cam self p vox)[p := cell_dist ext cam self p]
         else carve_upto ext cam self p vox) ! q = carve_upto ext cam self (Suc p) vox ! q"
      by (cases "q = p") (auto simp: carve_upto_nth std_min_def nth_list_update less_Suc_eq)
  qed
  with pn show ?thesis
    by (auto simp: carve_voxel_def Let_def idx dist old split: if_splits)
qed

lemma carve_loop_k:
  assumes wf: "wf_carving self"
    and len: "length vox = length (vox_array self)"
    and ij: "i < voxel_dim self" "j < voxel_dim self"
    and base: "base = unat i * (unat (voxel_dim self) * unat (voxel_dim self))
                 + unat j * unat (voxel_dim self)"
  shows "for_upto (\<lambda>k. carve_voxel ext cam (getMask cam) (createDistMap ext (getMask cam))
             (Mat_size (getMask cam)) self i j k) 0 (voxel_dim self)
           (carve_upto ext cam self base vox)
         = Inr (carve_upto ext cam self (base + unat (voxel_dim self)) vox)"
proof -
  let ?body = "\<lambda>k. carve_voxel ext cam (getMask cam) (createDistMap ext (getMask cam))
             (Mat_size (getMask cam)) self i j k"
  let ?I = "\<lambda>m s. s = carve_upto ext cam self (base + m) vox"
  have "\<exists>s'. for_upto ?body 0 (voxel_dim self) (carve_upto ext cam self base vox) = Inr s'
          \<and> ?I (unat (voxel_dim self)) s'"
  proof (rule for_upto_rule [where I = ?I])
    fix k s
    assume "k < voxel_dim self" and "s = carve_upto ext cam self (base + unat k) vox"
    then show "\<exists>s'. ?body k s = Inr s' \<and> s' = carve_upto ext cam self (base + Suc (unat k)) vox"
      using carve_voxel_step [OF wf len ij, of k "base + unat k" ext cam]
      by (simp add: base)
  qed simp_all
  then show ?thesis
    by auto
qed

lemma carve_loop_j:
  assumes wf: "wf_carving self"
    and len: "length vox = length (vox_array self)"
    and i: "i < voxel_dim self"
    and base: "base = unat i * (unat (voxel_dim self) * unat (voxel_dim self))"
  shows "for_upto (\<lambda>j. for_upto (\<lambda>k. carve_voxel ext cam (getMask cam)
             (createDistMap ext (getMask cam)) (Mat_size (getMask cam)) self i j k)
             0 (voxel_dim self)) 0 (voxel_dim self)
           (carve_upto ext cam self base vox)
         = Inr (carve_upto ext cam self
                  (base + unat (voxel_dim self) * unat (voxel_dim self)) vox)"
proof -
  let ?body = "\<lambda>j. for_upto (\<lambda>k. carve_voxel ext cam (getMask cam)
             (createDistMap ext (getMask cam)) (Mat_size (getMask cam)) self i j k)
             0 (voxel_dim self)"
  let ?I = "\<lambda>m s. s = carve_upto ext cam self (base + m * unat (voxel_dim self)) vox"
  have "\<exists>s'. for_upto ?body 0 (voxel_dim self) (carve_upto ext cam self base vox) = Inr s'
          \<and> ?I (unat (voxel_dim self)) s'"
  proof (rule for_upto_rule [where I = ?I])
    fix j s
    assume "j < voxel_dim self"
      and "s = carve_upto ext cam self (base + unat j * unat (voxel_dim self)) vox"
    then show "\<exists>s'. ?body j s = Inr s'
        \<and> s' = carve_upto ext cam self (base + Suc (unat j) * unat (voxel_dim self)) vox"
      using carve_loop_k [OF wf len i, of j "base + unat j * unat (voxel_dim self)" ext cam]
      by (simp add: base ac_simps)
  qed simp_all
  then show ?thesis
    by auto
qed

lemma carve_loop_i:
  assumes wf: "wf_carving self"
    and len: "length vox = length (vox_array self)"
  shows "for_upto (\<lambda>i. for_upto (\<lambda>j. for_upto (\<lambda>k. carve_voxel ext cam (getMask cam)
             (createDistMap ext (getMask cam)) (Mat_size (getMask cam)) self i j k)
             0 (voxel_dim self)) 0 (voxel_dim self)) 0 (voxel_dim self) vox
         = Inr (carve_field ext cam self vox)"
proof -
  define d where "d = unat (voxel_dim self)"
  let ?body = "\<lambda>i. for_upto (\<lambda>j. for_upto (\<lambda>k. carve_voxel ext cam (getMask cam)
             (createDistMap ext (getMask cam)) (Mat_size (getMask cam)) self i j k)
             0 (voxel_dim self)) 0 (voxel_dim self)"
  let ?I = "\<lambda>m s. s = carve_upto ext cam self (m * (d * d)) vox"
  have "\<exists>s'. for_upto ?body 0 (voxel_dim self) vox = Inr s' \<and> ?I (unat (voxel_dim self)) s'"
  proof (rule for_upto_rule [where I = ?I])
    fix i s
    assume "i < voxel_dim self" and "s = carve_upto ext cam self (unat i * (d * d)) vox"
    then show "\<exists>s'. ?body i s = Inr s' \<and> s' = carve_upto ext cam self (Suc (unat i) * (d * d)) vox"
      using carve_loop_j [OF wf len, of i "unat i * (d * d)" ext cam]
      by (simp add: d_def ac_simps)
  qed simp_all
  then have "for_upto ?body 0 (voxel_dim self) vox = Inr (carve_upto ext cam self (d * (d * d)) vox)"
    by (auto simp: d_def)
  moreover from wf len have "length vox = d * (d * d)"
    by (simp add: wf_carving_def d_def mult.assoc)
  then have "carve_upto ext cam self (d * (d * d)) vox = carve_field ext cam self vox"
    by (simp add: carve_upto_def carve_field_def)
  ultimately show ?thesis
    by simp
qed

lemma carve_char:
  assumes "wf_carving self"
  shows "carve ext cam self
         = Inr (self\<lparr>vox_array := carve_field ext cam self (vox_array self)\<rparr>)"
  using carve_loop_i [OF assms refl, of ext cam]
  by (simp add: carve_def Let_def)

lemma wf_carving_new:
  "unat vdim * unat vdim * unat vdim < 2 ^ 64 \<Longrightarrow> wf_carving (VoxelCarving_new bbox vdim)"
  by (simp add: wf_carving_def VoxelCarving_new_def unat_cube)

lemma cell_dist_vox_array [simp]:
  "cell_dist ext cam (self\<lparr>vox_array := vox\<rparr>) = cell_dist ext cam self"
  by (rule ext) (simp add: cell_dist_def calcVoxelPosInCamViewFrustum_def)

lemma carve_field_vox_array [simp]:
  "carve_field ext cam (self\<lparr>vox_array := vox\<rparr>) = carve_field ext cam self"
  by (rule ext) (simp add: carve_field_def)

lemma carve_field_length [simp]: "length (carve_field ext cam self vox) = length vox"
  by (simp add: carve_field_def)

lemma carve_field_nth:
  "p < length vox \<Longrightarrow>
     carve_field ext cam self vox ! p = std_min (vox ! p) (cell_dist ext cam self p)"
  by (simp add: carve_field_def)

lemma wf_carving_vox_array:
  "wf_carving self \<Longrightarrow> length vox = length (vox_array self) \<Longrightarrow>
     wf_carving (self\<lparr>vox_array := vox\<rparr>)"
  by (simp add: wf_carving_def)

lemma carve_all_char:
  assumes "wf_carving self"
  shows "carve_all ext cams self
         = Inr (self\<lparr>vox_array := fold (\<lambda>cam. carve_field ext cam self) cams (vox_array self)\<rparr>)"
  using assms
proof (induction cams arbitrary: self)
  case Nil
  then show ?case by simp
next
  case (Cons cam cams)
  let ?s = "self\<lparr>vox_array := carve_field ext cam self (vox_array self)\<rparr>"
  from Cons.prems have "wf_carving ?s"
    by (simp add: wf_carving_vox_array)
  from Cons.IH [OF this] Cons.prems show ?case
    by (simp add: carve_char)
qed

lemma fold_carve_field_length [simp]:
  "length (fold (\<lambda>cam. carve_field ext cam self) cams vox) = length vox"
  by (induction cams arbitrary: vox) simp_all

lemma fold_carve_field_nth:
  "p < length vox \<Longrightarrow>
     fold (\<lambda>cam. carve_field ext cam self) cams vox ! p
       = fold (\<lambda>cam a. std_min a (cell_dist ext cam self p)) cams (vox ! p)"
  by (induction cams arbitrary: vox) (simp_all add: carve_field_nth)

lemma cell_dist_idx:
  assumes "unat i < unat (voxel_dim self)" "unat j < unat (voxel_dim self)"
    "unat k < unat (voxel_dim self)"
  shows "cell_dist ext cam self
           (unat i * (unat (voxel_dim self) * unat (voxel_dim self))
              + unat j * unat (voxel_dim self) + unat k)
         = voxel_dist ext cam (getMask cam) (createDistMap ext (getMask cam))
             (Mat_size (getMask cam)) (calcVoxelPosInCamViewFrustum self i j k)"
  using idx_decode [OF assms] by (simp add: cell_dist_def Let_def)

lemma carve_cell:
  assumes wf: "wf_carving self"
    and ijk: "i < voxel_dim self" "j < voxel_dim self" "k < voxel_dim self"
    and p: "p = unat k + unat j * unat (voxel_dim self)
              + unat i * (unat (voxel_dim self) * unat (voxel_dim self))"
  shows "p < length (vox_array self)"
    and "\<exists>s'. carve ext cam self = Inr s' \<and> length (vox_array s') = length (vox_array self)
           \<and> vox_array s' ! p = std_min (vox_array self ! p)
                (voxel_dist ext cam (getMask cam) (createDistMap ext (getMask cam))
                   (Mat_size (getMask cam)) (calcVoxelPosInCamViewFrustum self i j k))"
proof -
  from ijk have lt: "unat i < unat (voxel_dim self)" "unat j < unat (voxel_dim self)"
      "unat k < unat (voxel_dim self)"
    by (simp_all add: word_less_nat_alt)
  have p': "p = unat i * (unat (voxel_dim self) * unat (voxel_dim self))
              + unat j * unat (voxel_dim self) + unat k"
    by (simp add: p)
  show pn: "p < length (vox_array self)"
    using idx_bound [OF lt] wf by (simp add: wf_carving_def p')
  then show "\<exists>s'. carve ext cam self = Inr s' \<and> length (vox_array s') = length (vox_array self)
           \<and> vox_array s' ! p = std_min (vox_array self ! p)
                (voxel_dist ext cam (getMask cam) (createDistMap ext (getMask cam))
                   (Mat_size (getMask cam)) (calcVoxelPosInCamViewFrustum self i j k))"
    using wf cell_dist_idx [OF lt, of ext cam]
    by (simp add: carve_char carve_field_nth p')
qed

lemma calcSurfaceNormals_loop_map:
  "calcSurfaceNormals_loop tris normals
     = normals @ map (\<lambda>tri. calcSurfaceNormal (comp_v1 tri) (comp_v2 tri) (comp_v3 tri)) tris"
  by (induction tris arbitrary: normals) simp_all

lemma calcSurfaceNormals_map:
  "calcSurfaceNormals tris
     = map (\<lambda>tri. calcSurfaceNormal (comp_v1 tri) (comp_v2 tri) (comp_v3 tri)) tris"
  by (simp add: calcSurfaceNormals_def calcSurfaceNormals_loop_map)

lemma carve_all_visual_hull:
  "carve_all ext cams self = Inr s \<Longrightarrow> visual_hull s = visual_hull self"
proof (induction cams arbitrary: self)
  case Nil
  then show ?case by simp
next
  case (Cons cam cams)
  from Cons.prems obtain s1 where s1: "carve ext cam self = Inr s1" "carve_all ext cams s1 = Inr s"
    by (auto split: sum.splits)
  from s1(1) have "visual_hull s1 = visual_hull self"
    by (auto simp: carve_def Let_def split: sum.splits)
  with Cons.IH [OF s1(2)] show ?case
    by simp
qed

lemma voxel_dist_is_float:
  assumes "\<And>coord. is_float (Mat_at DistImage coord)"
  shows "is_float (voxel_dist ext cam Mask DistImage img_size v)"
proof -
  have "is_float float_minus_one"
    by (simp add: float_minus_one_eq bit_length.simps)
  with assms show ?thesis
    by (simp add: voxel_dist_def Let_def fmul_minus_one fneg_is_float)
qed

lemma cell_dist_is_float:
  assumes "\<And>coord. is_float (Mat_at (createDistMap ext (getMask cam)) coord)"
  shows "is_float (cell_dist ext cam self p)"
  using assms by (simp add: cell_dist_def Let_def voxel_dist_is_float)

lemma voxel_dist_zero:
  assumes "\<And>coord. is_float (Mat_at DistImage coord) \<and> nonneg (Mat_at DistImage coord)
             \<and> (units (Mat_at DistImage coord) = 0 \<longrightarrow> Mat_at Mask coord = 0)"
    and "units (voxel_dist ext cam Mask DistImage img_size v) = 0"
  shows "voxel_dist ext cam Mask DistImage img_size v = Finite True 0"
proof -
  let ?c = "project cam v"
  let ?s = "Mat_at DistImage ?c"
  from assms(1) have s: "is_float ?s" "nonneg ?s" "units ?s = 0 \<longrightarrow> Mat_at Mask ?c = 0"
    by blast+
  have m1: "units float_minus_one \<noteq> 0"
    by (simp add: float_minus_one_eq)
  show ?thesis
  proof (cases "inside ext ?c img_size")
    case False
    with assms(2) m1 show ?thesis
      by (simp add: voxel_dist_def Let_def)
  next
    case True
    show ?thesis
    proof (cases "Mat_at Mask ?c = 0")
      case False
      with True s(3) assms(2) show ?thesis
        by (simp add: voxel_dist_def Let_def)
    next
      case mask: True
      with True have d: "voxel_dist ext cam Mask DistImage img_size v = fneg ?s"
        by (simp add: voxel_dist_def Let_def fmul_minus_one [OF s(1)])
      from s(2) obtain n where "?s = Infty False \<or> ?s = Finite False n"
        by (auto simp: nonneg_def)
      with assms(2) show ?thesis
        unfolding d by auto
    qed
  qed
qed

lemma cell_dist_zero:
  assumes "\<And>coord. is_float (Mat_at (createDistMap ext (getMask cam)) coord)
             \<and> nonneg (Mat_at (createDistMap ext (getMask cam)) coord)
             \<and> (units (Mat_at (createDistMap ext (getMask cam)) coord) = 0
                  \<longrightarrow> Mat_at (getMask cam) coord = 0)"
    and "units (cell_dist ext cam self p) = 0"
  shows "cell_dist ext cam self p = Finite True 0"
  using assms(2) unfolding cell_dist_def Let_def
  by (rule voxel_dist_zero [rotated]) (rule assms(1))

section \<open>Evaluation at the concrete inputs\<close>

lemma margin_x:
  "fadd (float_lit 1 1) (fmul (float_lit 2 1) (float_lit 6 100)) = Finite False (9395241 * 2 ^ 126)"
  by (simp add: float_lit_def fround_def Let_def bit_length.simps)

lemma margin_y:
  "fadd (float_lit 1 1) (fmul (float_lit 2 1) (float_lit 20 100)) = Finite False (11744051 * 2 ^ 126)"
  by (simp add: float_lit_def fround_def Let_def bit_length.simps)

lemma start_params_box_0_10_dim4:
  "calcStartParameter 4 box_0_10
     = \<lparr> start_x = Finite True (10066328 * 2 ^ 125), start_y = Finite True (2 ^ 150),
         start_z = Finite False 0, voxel_width = Finite False (11744051 * 2 ^ 127),
         voxel_height = Finite False (7 * 2 ^ 148), voxel_depth = Finite False (5 * 2 ^ 148) \<rparr>"
  by (simp add: calcStartParameter_def box_0_10_def float_of_size_t_def fsub_def float_lit_def
      fround_def Let_def bit_length.simps)

lemma start_params_box_0_10_dim2:
  "calcStartParameter 2 box_0_10
     = \<lparr> start_x = Finite True (10066328 * 2 ^ 125), start_y = Finite True (2 ^ 150),
         start_z = Finite False 0, voxel_width = Finite False (11744051 * 2 ^ 128),
         voxel_height = Finite False (7 * 2 ^ 149), voxel_depth = Finite False (5 * 2 ^ 149) \<rparr>"
  by (simp add: calcStartParameter_def box_0_10_def float_of_size_t_def fsub_def float_lit_def
      fround_def Let_def bit_length.simps)

lemma voxel_pos_011:
  "calcVoxelPosInCamViewFrustum (VoxelCarving_new box_0_10 2) 0 1 1
     = \<lparr> xpos = Finite False (5 * 2 ^ 149), ypos = Finite False (5 * 2 ^ 149),
         zpos = Finite False 0, voxel_value = Finite False (2 ^ 149) \<rparr>"
  by (simp add: calcVoxelPosInCamViewFrustum_def VoxelCarving_new_def start_params_box_0_10_dim2
      float_of_size_t_def float_lit_def fround_def Let_def bit_length.simps)

lemma demo_dim2:
  "wf_carving (VoxelCarving_new box_0_10 2)"
  "voxel_dim (VoxelCarving_new box_0_10 2) = 2"
  "voxel_slice (VoxelCarving_new box_0_10 2) = 4"
  "vox_array (VoxelCarving_new box_0_10 2) = replicate 8 FLT_MAX"
  by (simp_all add: wf_carving_new) (simp_all add: VoxelCarving_new_def)

lemma float_lit_2_8: "float_lit 28 10 = Finite False (11744051 * 2 ^ 127)"
  by (simp add: float_lit_def fround_def Let_def bit_length.simps)

lemma float_lit_0_3: "float_lit 3 10 = Finite False (10066330 * 2 ^ 124)"
  by (simp add: float_lit_def fround_def Let_def bit_length.simps)

lemma start_z_zero: "start_z (calcStartParameter vdim bbox) = Finite False 0"
  unfolding calcStartParameter_def Let_def float_lit_0 by simp

lemma unit_triangle_normal:
  "calcSurfaceNormal (comp_v1 unit_triangle) (comp_v2 unit_triangle) (comp_v3 unit_triangle)
     = \<lparr> vec_x = Finite False 0, vec_y = Finite False 0, vec_z = Finite False (2 ^ 149) \<rparr>"
  by (simp add: calcSurfaceNormal_def unit_triangle_def fsub_def float_lit_def fround_def Let_def
      bit_length.simps)

section \<open>The claims\<close>

subsection \<open>The start parameters of the box from 0 to 10\<close>

text \<open>
  C1, as the code has it. For the bounding box from 0 to 10 on every axis and a voxel
  dimension of 4, \<open>start_x\<close> is \<open>-10066328 / 2^24\<close>, which is \<open>-0.6\<close> up to the rounding
  of single precision (the offset is half of the 12 percent by which the width grows,
  0.6, not 0.3), \<open>voxel_width\<close> is the float \<open>2.8f\<close>, and \<open>start_z\<close> is \<open>+0.0\<close> for
  every bounding box and voxel dimension. The bit patterns are \<open>0xBF199998\<close> and
  \<open>0x40333333\<close>.
\<close>

theorem start_parameters_box_0_10:
  "start_x (calcStartParameter 4 box_0_10) = Finite True (10066328 * 2 ^ 125)
   \<and> valof (start_x (calcStartParameter 4 box_0_10)) = - (10066328 / 2 ^ 24)
   \<and> \<bar>valof (start_x (calcStartParameter 4 box_0_10)) - (- (6 / 10))\<bar> < 1 / 10 ^ 7
   \<and> voxel_width (calcStartParameter 4 box_0_10) = float_lit 28 10
   \<and> valof (voxel_width (calcStartParameter 4 box_0_10)) = 11744051 / 2 ^ 22
   \<and> \<bar>valof (voxel_width (calcStartParameter 4 box_0_10)) - 28 / 10\<bar> < 1 / 10 ^ 7
   \<and> float_bits (start_x (calcStartParameter 4 box_0_10)) = 0xBF199998
   \<and> float_bits (voxel_width (calcStartParameter 4 box_0_10)) = 0x40333333
   \<and> start_z (calcStartParameter vdim bbox) = float_lit 0 1
   \<and> valof (start_z (calcStartParameter vdim bbox)) = 0"
  unfolding start_z_zero float_lit_0 float_lit_2_8 start_params_box_0_10_dim4
  by (simp add: valof_def bit_length.simps)

text \<open>
  C1, as the claim states it, fails: \<open>start_x\<close> is not \<open>-0.3\<close>, neither as a number
  nor as the float \<open>-0.3f\<close>.
\<close>

theorem start_x_is_not_minus_0_3:
  "valof (start_x (calcStartParameter 4 box_0_10)) \<noteq> - (3 / 10)
   \<and> \<not> feq (start_x (calcStartParameter 4 box_0_10)) (fneg (float_lit 3 10))
   \<and> valof (start_x (calcStartParameter 4 box_0_10)) < - (59 / 100)"
  unfolding float_lit_0_3 start_params_box_0_10_dim4
  by (simp add: valof_def feq_def)

subsection \<open>Surface normals\<close>

text \<open>
  C2, as the code has it. \<open>calcSurfaceNormals\<close> returns one normal for each triangle,
  the cross product \<open>(v2 - v1) \<times> (v3 - v1)\<close> in float arithmetic, not normalised: the
  list has the length of the triangle list, not three times that length. For the
  triangle \<open>(0,0,0)\<close>, \<open>(1,0,0)\<close>, \<open>(0,1,0)\<close> it is the single normal \<open>(0,0,1)\<close>.
\<close>

theorem calcSurfaceNormals_one_per_triangle:
  "calcSurfaceNormals tris
     = map (\<lambda>tri. calcSurfaceNormal (comp_v1 tri) (comp_v2 tri) (comp_v3 tri)) tris
   \<and> length (calcSurfaceNormals tris) = length tris
   \<and> calcSurfaceNormals [unit_triangle]
       = [\<lparr> vec_x = float_lit 0 1, vec_y = float_lit 0 1, vec_z = float_lit 1 1 \<rparr>]
   \<and> length (calcSurfaceNormals [unit_triangle]) = 1
   \<and> length (calcSurfaceNormals [unit_triangle]) \<noteq> 3 * length [unit_triangle]"
  unfolding float_lit_0 float_lit_1
  by (simp add: calcSurfaceNormals_map unit_triangle_normal)

subsection \<open>Monotonicity of carving\<close>

text \<open>
  C3. Starting from a freshly constructed object whose \<open>vdim^3\<close> cells fit in
  \<open>std::size_t\<close>, every sequence of \<open>carve\<close> calls succeeds, and one more call leaves
  in every cell a value less than or equal to the one before (the float comparison
  \<open><=\<close>, so no cell ever holds a NaN).
\<close>

theorem carving_monotone:
  assumes "unat vdim * unat vdim * unat vdim < 2 ^ 64"
  shows "\<exists>s s'. carve_all ext cams (VoxelCarving_new bbox vdim) = Inr s
           \<and> carve_all ext (cams @ [cam]) (VoxelCarving_new bbox vdim) = Inr s'
           \<and> carve ext cam s = Inr s'
           \<and> length (vox_array s) = unat vdim * unat vdim * unat vdim
           \<and> length (vox_array s') = unat vdim * unat vdim * unat vdim
           \<and> (\<forall>n < unat vdim * unat vdim * unat vdim.
                 fle (vox_array s' ! n) (vox_array s ! n))"
proof -
  let ?new = "VoxelCarving_new bbox vdim"
  let ?run = "\<lambda>cs. fold (\<lambda>cam. carve_field ext cam ?new) cs (vox_array ?new)"
  let ?s = "?new\<lparr>vox_array := ?run cams\<rparr>"
  let ?s' = "?new\<lparr>vox_array := ?run (cams @ [cam])\<rparr>"
  have wf: "wf_carving ?new"
    using assms by (rule wf_carving_new)
  have len: "length (vox_array ?new) = unat vdim * unat vdim * unat vdim"
    using wf by (simp add: wf_carving_def VoxelCarving_new_def)
  have 1: "carve_all ext cams ?new = Inr ?s" "carve_all ext (cams @ [cam]) ?new = Inr ?s'"
    using wf by (simp_all only: carve_all_char)
  have "wf_carving ?s"
    using wf by (simp add: wf_carving_vox_array)
  then have 2: "carve ext cam ?s = Inr ?s'"
    by (simp add: carve_char)
  have 3: "fle (vox_array ?s' ! n) (vox_array ?s ! n)" if "n < unat vdim * unat vdim * unat vdim" for n
  proof -
    from that len have n: "n < length (vox_array ?new)"
      by simp
    then have "vox_array ?new ! n = FLT_MAX"
      by (simp add: VoxelCarving_new_def)
    then have "\<not> is_nan (vox_array ?s ! n)"
      using n by (simp add: fold_carve_field_nth fold_std_min_not_nan FLT_MAX_not_nan)
    then show ?thesis
      using n by (simp add: carve_field_nth std_min_fle)
  qed
  from 1 2 3 len show ?thesis
    by simp
qed

theorem carving_monotone_witness:
  "\<exists>s s'. carve_all ext_demo [cam_fg] (VoxelCarving_new box_0_10 2) = Inr s
      \<and> carve_all ext_demo [cam_fg, cam_bg] (VoxelCarving_new box_0_10 2) = Inr s'
      \<and> carve ext_demo cam_bg s = Inr s'
      \<and> length (vox_array s) = 8 \<and> length (vox_array s') = 8
      \<and> fle (vox_array s' ! 5) (vox_array s ! 5)"
proof -
  have "unat (2 :: size_t) * unat (2 :: size_t) * unat (2 :: size_t) < 2 ^ 64"
    by simp
  from carving_monotone [OF this, of ext_demo "[cam_fg]" box_0_10 cam_bg]
  show ?thesis
    by auto
qed

subsection \<open>Order independence of carving\<close>

text \<open>
  C4. Starting from a freshly constructed object whose \<open>vdim^3\<close> cells fit in
  \<open>std::size_t\<close>, two lists of cameras that are permutations of one another both carve
  successfully, and the two final objects agree: every cell of one field equals the
  cell of the other as floats (the comparison \<open>==\<close>), and all other members are
  identical. When the distance maps hold binary32 numbers, the two cells are the same
  value unless they are zero. When moreover the distances are of clear sign and are
  zero at background pixels only, as distances to the silhouette boundary are, the two
  final objects are one and the same.
\<close>

theorem carve_order_independent:
  assumes "unat vdim * unat vdim * unat vdim < 2 ^ 64"
    and "mset cams1 = mset cams2"
  shows "\<exists>s1 s2. carve_all ext cams1 (VoxelCarving_new bbox vdim) = Inr s1
           \<and> carve_all ext cams2 (VoxelCarving_new bbox vdim) = Inr s2
           \<and> length (vox_array s1) = unat vdim * unat vdim * unat vdim
           \<and> list_all2 feq (vox_array s1) (vox_array s2)
           \<and> s1\<lparr>vox_array := []\<rparr> = s2\<lparr>vox_array := []\<rparr>
           \<and> ((\<forall>(cam :: Camera) coord.
                   is_float (Mat_at (createDistMap ext (getMask cam)) coord)) \<longrightarrow>
                (\<forall>n < unat vdim * unat vdim * unat vdim.
                   vox_array s1 ! n = vox_array s2 ! n \<or> units (vox_array s1 ! n) = 0))
           \<and> ((\<forall>(cam :: Camera) coord.
                   is_float (Mat_at (createDistMap ext (getMask cam)) coord)
                   \<and> nonneg (Mat_at (createDistMap ext (getMask cam)) coord)
                   \<and> (units (Mat_at (createDistMap ext (getMask cam)) coord) = 0
                        \<longrightarrow> Mat_at (getMask cam) coord = 0)) \<longrightarrow>
                s1 = s2)"
proof -
  let ?new = "VoxelCarving_new bbox vdim"
  let ?run = "\<lambda>cs. fold (\<lambda>cam. carve_field ext cam ?new) cs (vox_array ?new)"
  have wf: "wf_carving ?new"
    using assms(1) by (rule wf_carving_new)
  have len: "length (vox_array ?new) = unat vdim * unat vdim * unat vdim"
    using wf by (simp add: wf_carving_def VoxelCarving_new_def)
  have run: "carve_all ext cams1 ?new = Inr (?new\<lparr>vox_array := ?run cams1\<rparr>)"
      "carve_all ext cams2 ?new = Inr (?new\<lparr>vox_array := ?run cams2\<rparr>)"
    using wf by (simp_all only: carve_all_char)
  have cell: "?run cs ! n = fold (\<lambda>c x. std_min x (cell_dist ext c ?new n)) cs FLT_MAX"
    if "n < length (vox_array ?new)" for cs n
    using that by (simp add: fold_carve_field_nth) (simp add: VoxelCarving_new_def)
  have eq: "feq (?run cams1 ! n) (?run cams2 ! n)" if "n < length (vox_array ?new)" for n
    by (simp only: cell [OF that] fold_std_min_feq [OF FLT_MAX_not_nan assms(2)])
  have all: "list_all2 feq (?run cams1) (?run cams2)"
    by (rule list_all2_all_nthI) (simp_all add: eq)
  have mem: "?run cs ! n = FLT_MAX \<or> (\<exists>c. ?run cs ! n = cell_dist ext c ?new n)"
    if "n < length (vox_array ?new)" for cs n
    using fold_std_min_mem [of "\<lambda>c. cell_dist ext c ?new n" cs FLT_MAX]
    by (auto simp: cell [OF that])
  have same: "?run cams1 ! n = ?run cams2 ! n \<or> units (?run cams1 ! n) = 0"
    if fl: "\<forall>(cam :: Camera) coord. is_float (Mat_at (createDistMap ext (getMask cam)) coord)"
      and n: "n < unat vdim * unat vdim * unat vdim" for n
  proof -
    from n len have n': "n < length (vox_array ?new)"
      by simp
    have "is_float (cell_dist ext c ?new n)" for c
      using fl by (intro cell_dist_is_float) blast
    then have "is_float (?run cs ! n)" for cs
      using mem [OF n', of cs] by (auto simp: FLT_MAX_is_float)
    with eq [OF n'] show ?thesis
      using is_float_units_inj [of "?run cams1 ! n" "?run cams2 ! n"] by blast
  qed
  have exact: "?run cams1 = ?run cams2"
    if dm: "\<forall>(cam :: Camera) coord.
        is_float (Mat_at (createDistMap ext (getMask cam)) coord)
        \<and> nonneg (Mat_at (createDistMap ext (getMask cam)) coord)
        \<and> (units (Mat_at (createDistMap ext (getMask cam)) coord) = 0
             \<longrightarrow> Mat_at (getMask cam) coord = 0)"
  proof (rule nth_equalityI)
    show "length (?run cams1) = length (?run cams2)"
      by simp
  next
    fix n
    assume "n < length (?run cams1)"
    then have n': "n < length (vox_array ?new)" and n: "n < unat vdim * unat vdim * unat vdim"
      using len by simp_all
    have max: "units FLT_MAX \<noteq> 0"
      by (simp add: FLT_MAX_def)
    have zero: "?run cs ! n = Finite True 0" if "units (?run cs ! n) = 0" for cs
    proof -
      from mem [OF n', of cs] that max obtain c where c: "?run cs ! n = cell_dist ext c ?new n"
        by auto
      have "cell_dist ext c ?new n = Finite True 0"
        using dm that by (intro cell_dist_zero) (simp_all only: c [symmetric], blast)
      with c show ?thesis
        by simp
    qed
    from dm have "\<forall>(cam :: Camera) coord. is_float (Mat_at (createDistMap ext (getMask cam)) coord)"
      by blast
    from same [OF this n] show "?run cams1 ! n = ?run cams2 ! n"
    proof
      assume u: "units (?run cams1 ! n) = 0"
      with eq [OF n'] have "units (?run cams2 ! n) = 0"
        by (simp add: feq_def)
      with u zero [of cams1] zero [of cams2] show ?thesis
        by simp
    qed
  qed
  from run len all same exact show ?thesis
    by simp
qed

theorem carve_order_independent_witness:
  "\<exists>s1 s2. carve_all ext_demo [cam_fg, cam_bg] (VoxelCarving_new box_0_10 2) = Inr s1
      \<and> carve_all ext_demo [cam_bg, cam_fg] (VoxelCarving_new box_0_10 2) = Inr s2
      \<and> length (vox_array s1) = 8
      \<and> list_all2 feq (vox_array s1) (vox_array s2)
      \<and> s1\<lparr>vox_array := []\<rparr> = s2\<lparr>vox_array := []\<rparr>
      \<and> (vox_array s1 ! 3 = vox_array s2 ! 3 \<or> units (vox_array s1 ! 3) = 0)
      \<and> s1 = s2"
proof -
  have "unat (2 :: size_t) * unat (2 :: size_t) * unat (2 :: size_t) < 2 ^ 64"
    by simp
  moreover have "mset [cam_fg, cam_bg] = mset [cam_bg, cam_fg]"
    by simp
  moreover have "is_float (Mat_at (createDistMap ext_demo (getMask cam)) coord)
      \<and> nonneg (Mat_at (createDistMap ext_demo (getMask cam)) coord)
      \<and> units (Mat_at (createDistMap ext_demo (getMask cam)) coord) \<noteq> 0"
    for cam :: Camera and coord
    unfolding ext_demo_def float_lit_3 by (simp add: bit_length.simps nonneg_def)
  ultimately show ?thesis
    using carve_order_independent [of 2 "[cam_fg, cam_bg]" "[cam_bg, cam_fg]" ext_demo box_0_10]
    by auto
qed

subsection \<open>The distance a camera contributes to a voxel\<close>

text \<open>
  C5. On a well-formed object \<open>carve\<close> succeeds, and for every grid coordinate
  \<open>(i, j, k)\<close> the cell of that voxel becomes \<open>std::min\<close> of its old value and the
  distance \<open>dist\<close>, where \<open>dist\<close> is exactly \<open>-1.0\<close> when the projected coordinate is
  outside the image, and otherwise the sample of the distance map at the coordinate,
  multiplied by \<open>-1.0\<close> when the mask is zero there; multiplying a float by \<open>-1.0\<close>
  negates it.
\<close>

theorem carve_cell_distance:
  assumes "wf_carving self"
    and "i < voxel_dim self" "j < voxel_dim self" "k < voxel_dim self"
  shows "let coord = project cam (calcVoxelPosInCamViewFrustum self i j k);
             sample = Mat_at (createDistMap ext (getMask cam)) coord;
             dist = (if inside ext coord (Mat_size (getMask cam))
                     then (if Mat_at (getMask cam) coord = 0
                           then fmul sample float_minus_one else sample)
                     else float_minus_one);
             p = unat k + unat j * unat (voxel_dim self)
                   + unat i * (unat (voxel_dim self) * unat (voxel_dim self))
         in (\<exists>s'. carve ext cam self = Inr s'
               \<and> vox_array s' ! p = std_min (vox_array self ! p) dist)
            \<and> valof float_minus_one = - 1
            \<and> (is_float sample \<longrightarrow> fmul sample float_minus_one = fneg sample)"
  using carve_cell(2) [OF assms refl, of ext cam]
  by (auto simp: Let_def voxel_dist_def valof_float_minus_one fmul_minus_one)

theorem carve_cell_distance_witness:
  "wf_carving (VoxelCarving_new box_0_10 2)
   \<and> (\<exists>s'. carve ext_demo cam_bg (VoxelCarving_new box_0_10 2) = Inr s'
          \<and> vox_array s' ! 3 = Finite True (3 * 2 ^ 149))
   \<and> is_float (float_lit 3 1)
   \<and> fmul (float_lit 3 1) float_minus_one = fneg (float_lit 3 1)"
proof -
  let ?S = "VoxelCarving_new box_0_10 2"
  have lt: "(0 :: size_t) < voxel_dim ?S" "(1 :: size_t) < voxel_dim ?S"
    by (simp_all add: demo_dim2)
  note th = carve_cell_distance [OF demo_dim2(1) lt(1) lt(2) lt(2), of cam_bg ext_demo,
      unfolded Let_def voxel_pos_011]
  have fl: "is_float (float_lit 3 1)"
    unfolding float_lit_3 by (simp add: bit_length.simps)
  have neg: "fmul (float_lit 3 1) float_minus_one = Finite True (3 * 2 ^ 149)"
    by (simp only: fmul_minus_one [OF fl]) (simp only: float_lit_3 fneg.simps simp_thms)
  have min: "std_min FLT_MAX (Finite True (3 * 2 ^ 149)) = Finite True (3 * 2 ^ 149)"
    by (simp add: std_min_def flt_def is_nan_def FLT_MAX_def)
  have ins: "fle (float_lit 0 1) (Finite False (5 * 2 ^ 149))"
    unfolding float_lit_0 by (simp add: fle_def is_nan_def)
  have "\<exists>s'. carve ext_demo cam_bg ?S = Inr s' \<and> vox_array s' ! 3 = Finite True (3 * 2 ^ 149)"
    using th [THEN conjunct1] neg min ins
    by (simp add: demo_dim2 ext_demo_def cam_bg_def numeral_3_eq_3)
  with fl neg show ?thesis
    by (simp add: demo_dim2 float_lit_vals_Suc)
qed

subsection \<open>Voxel positions and the layout of the field\<close>

text \<open>
  C6. The voxel at grid coordinates \<open>(i, j, k)\<close> has the position
  \<open>start_x + k * voxel_width\<close>, \<open>start_y + j * voxel_height\<close>,
  \<open>start_z + i * voxel_depth\<close> (in float arithmetic), and on a well-formed object
  \<open>carve\<close> updates for it the cell at the index \<open>k + j * voxel_dim + i * voxel_slice\<close>,
  which is \<open>k + j * voxel_dim + i * voxel_dim^2\<close> without wrap-around, lies inside
  the array, and is different for different grid coordinates.
\<close>

theorem voxel_position_and_index:
  assumes "wf_carving self"
    and "i < voxel_dim self" "j < voxel_dim self" "k < voxel_dim self"
  shows "xpos (calcVoxelPosInCamViewFrustum self i j k)
           = fadd (start_x (params self)) (fmul (float_of_size_t k) (voxel_width (params self)))
       \<and> ypos (calcVoxelPosInCamViewFrustum self i j k)
           = fadd (start_y (params self)) (fmul (float_of_size_t j) (voxel_height (params self)))
       \<and> zpos (calcVoxelPosInCamViewFrustum self i j k)
           = fadd (start_z (params self)) (fmul (float_of_size_t i) (voxel_depth (params self)))
       \<and> unat (k + j * voxel_dim self + i * voxel_slice self)
           = unat k + unat j * unat (voxel_dim self)
               + unat i * (unat (voxel_dim self) * unat (voxel_dim self))
       \<and> unat (k + j * voxel_dim self + i * voxel_slice self) < length (vox_array self)
       \<and> (\<exists>s'. carve ext cam self = Inr s'
             \<and> vox_array s' ! unat (k + j * voxel_dim self + i * voxel_slice self)
                 = std_min (vox_array self ! unat (k + j * voxel_dim self + i * voxel_slice self))
                     (voxel_dist ext cam (getMask cam) (createDistMap ext (getMask cam))
                        (Mat_size (getMask cam)) (calcVoxelPosInCamViewFrustum self i j k)))
       \<and> (\<forall>i' j' k'. i' < voxel_dim self \<and> j' < voxel_dim self \<and> k' < voxel_dim self
             \<and> k' + j' * voxel_dim self + i' * voxel_slice self
                 = k + j * voxel_dim self + i * voxel_slice self
             \<longrightarrow> i' = i \<and> j' = j \<and> k' = k)"
proof -
  define d where "d = unat (voxel_dim self)"
  from assms(1) have ovf: "d * d * d < 2 ^ 64"
    and slice: "voxel_slice self = voxel_dim self * voxel_dim self"
    by (simp_all add: wf_carving_def d_def)
  have idx: "unat (k' + j' * voxel_dim self + i' * voxel_slice self)
      = unat i' * (d * d) + unat j' * d + unat k'"
    if "i' < voxel_dim self" "j' < voxel_dim self" "k' < voxel_dim self" for i' j' k'
    using idx_unat [OF ovf [unfolded d_def] that] by (simp add: slice d_def)
  have inj: "i' = i \<and> j' = j \<and> k' = k"
    if lt: "i' < voxel_dim self" "j' < voxel_dim self" "k' < voxel_dim self"
      and eq: "k' + j' * voxel_dim self + i' * voxel_slice self
                 = k + j * voxel_dim self + i * voxel_slice self" for i' j' k'
  proof -
    from lt have lt': "unat i' < d" "unat j' < d" "unat k' < d"
      by (simp_all add: d_def word_less_nat_alt)
    from assms(2-4) have lt0: "unat i < d" "unat j < d" "unat k < d"
      by (simp_all add: d_def word_less_nat_alt)
    from eq have "unat i' * (d * d) + unat j' * d + unat k' = unat i * (d * d) + unat j * d + unat k"
      by (simp add: idx [OF lt, symmetric] idx [OF assms(2-4), symmetric])
    with idx_decode [OF lt'] idx_decode [OF lt0]
    have "unat i' = unat i" "unat j' = unat j" "unat k' = unat k"
      by simp_all
    then show ?thesis
      by (simp add: word_unat_eq_iff)
  qed
  have p: "unat (k + j * voxel_dim self + i * voxel_slice self)
      = unat k + unat j * unat (voxel_dim self)
          + unat i * (unat (voxel_dim self) * unat (voxel_dim self))"
    using idx [OF assms(2-4)] by (simp add: d_def)
  from carve_cell(1) [OF assms p] carve_cell(2) [OF assms p, of ext cam] p inj show ?thesis
    by (simp add: calcVoxelPosInCamViewFrustum_def) blast
qed

theorem voxel_position_and_index_witness:
  "wf_carving (VoxelCarving_new box_0_10 2)
   \<and> xpos (calcVoxelPosInCamViewFrustum (VoxelCarving_new box_0_10 2) 0 1 1)
       = Finite False (5 * 2 ^ 149)
   \<and> unat ((1 :: size_t) + 1 * voxel_dim (VoxelCarving_new box_0_10 2)
             + 0 * voxel_slice (VoxelCarving_new box_0_10 2)) = 3
   \<and> (\<exists>s'. carve ext_demo cam_fg (VoxelCarving_new box_0_10 2) = Inr s'
          \<and> vox_array s' ! 3 = Finite False (3 * 2 ^ 149))"
proof -
  let ?S = "VoxelCarving_new box_0_10 2"
  have lt: "(0 :: size_t) < voxel_dim ?S" "(1 :: size_t) < voxel_dim ?S"
    by (simp_all add: demo_dim2)
  note th = voxel_position_and_index [OF demo_dim2(1) lt(1) lt(2) lt(2), of ext_demo cam_fg]
  have min: "std_min FLT_MAX (Finite False (3 * 2 ^ 149)) = Finite False (3 * 2 ^ 149)"
    by (simp add: std_min_def flt_def is_nan_def FLT_MAX_def)
  have ins: "fle (float_lit 0 1) (Finite False (5 * 2 ^ 149))"
    unfolding float_lit_0 by (simp add: fle_def is_nan_def)
  have dist: "voxel_dist ext_demo cam_fg (getMask cam_fg) (createDistMap ext_demo (getMask cam_fg))
      (Mat_size (getMask cam_fg)) (calcVoxelPosInCamViewFrustum ?S 0 1 1) = Finite False (3 * 2 ^ 149)"
    unfolding voxel_pos_011 using ins
    by (simp add: voxel_dist_def Let_def ext_demo_def cam_fg_def float_lit_vals_Suc)
  from th have "\<exists>s'. carve ext_demo cam_fg ?S = Inr s'
      \<and> vox_array s' ! unat (1 + 1 * voxel_dim ?S + 0 * voxel_slice ?S)
          = std_min (vox_array ?S ! unat (1 + 1 * voxel_dim ?S + 0 * voxel_slice ?S))
              (voxel_dist ext_demo cam_fg (getMask cam_fg) (createDistMap ext_demo (getMask cam_fg))
                 (Mat_size (getMask cam_fg)) (calcVoxelPosInCamViewFrustum ?S 0 1 1))"
    by blast
  then have "\<exists>s'. carve ext_demo cam_fg ?S = Inr s' \<and> vox_array s' ! 3 = Finite False (3 * 2 ^ 149)"
    unfolding dist using min by (simp add: demo_dim2)
  then show ?thesis
    by (simp add: voxel_pos_011 demo_dim2)
qed

subsection \<open>The initial state\<close>

text \<open>
  C7. Right after construction the voxel array has \<open>vdim * vdim * vdim\<close> cells
  (as computed in \<open>std::size_t\<close>, which is \<open>vdim^3\<close> when that fits in 64 bits) and
  every cell holds \<open>FLT_MAX\<close>, a finite float that no finite float exceeds.
\<close>

theorem initial_voxel_field:
  "length (vox_array (VoxelCarving_new bbox vdim)) = unat (vdim * vdim * vdim)
   \<and> (unat vdim * unat vdim * unat vdim < 2 ^ 64 \<longrightarrow>
        length (vox_array (VoxelCarving_new bbox vdim)) = unat vdim * unat vdim * unat vdim)
   \<and> (\<forall>n < length (vox_array (VoxelCarving_new bbox vdim)).
        vox_array (VoxelCarving_new bbox vdim) ! n = FLT_MAX)
   \<and> is_float FLT_MAX \<and> is_finite FLT_MAX
   \<and> (\<forall>a. is_float a \<longrightarrow> is_finite a \<longrightarrow> fle a FLT_MAX)"
proof -
  have "is_finite FLT_MAX"
    by (simp add: FLT_MAX_def)
  then show ?thesis
    by (simp add: VoxelCarving_new_def unat_cube FLT_MAX_is_float FLT_MAX_greatest)
qed

theorem initial_voxel_field_witness:
  "length (vox_array (VoxelCarving_new box_0_10 4)) = 64
   \<and> vox_array (VoxelCarving_new box_0_10 4) ! 63 = FLT_MAX
   \<and> fle (Finite True 5) FLT_MAX"
proof -
  have "unat (4 :: size_t) * unat (4 :: size_t) * unat (4 :: size_t) < 2 ^ 64"
    by simp
  moreover have "is_float (Finite True 5)" "is_finite (Finite True 5)"
    by (simp_all add: bit_length.simps)
  ultimately show ?thesis
    using initial_voxel_field [of box_0_10 4] by simp
qed

subsection \<open>The precondition of the export\<close>

text \<open>
  C8. \<open>exportToDisk\<close> fails its assertion, and leaves the disk alone, whenever the
  stored triangle list is empty: so on a freshly constructed object, and after any
  number of \<open>carve\<close> calls on it, and after an extraction that found no triangle. When
  the stored triangle list is not empty the assertion passes and
  \<open>export.obj\<close> is written from the stored triangles and normals; so after an
  extraction that found triangles.
\<close>

theorem exportToDisk_precondition:
  "(getTriangles (visual_hull self) = [] \<longrightarrow>
      exportToDisk saveASOBJ self fs = Inl AssertionFailed)
   \<and> (getTriangles (visual_hull self) \<noteq> [] \<longrightarrow>
      exportToDisk saveASOBJ self fs
        = Inr (saveASOBJ ''export.obj'' (getTriangles (visual_hull self))
                 (getNormals (visual_hull self)) fs))
   \<and> exportToDisk saveASOBJ (VoxelCarving_new bbox vdim) fs = Inl AssertionFailed
   \<and> (carve_all ext cams (VoxelCarving_new bbox vdim) = Inr s \<longrightarrow>
      exportToDisk saveASOBJ s fs = Inl AssertionFailed)
   \<and> (fst (createVisualHull mc self) = visual_hull (snd (createVisualHull mc self)))
   \<and> (getTriangles (fst (createVisualHull mc self)) = [] \<longrightarrow>
      exportToDisk saveASOBJ (snd (createVisualHull mc self)) fs = Inl AssertionFailed)
   \<and> (getTriangles (fst (createVisualHull mc self)) \<noteq> [] \<longrightarrow>
      exportToDisk saveASOBJ (snd (createVisualHull mc self)) fs
        = Inr (saveASOBJ ''export.obj'' (getTriangles (fst (createVisualHull mc self)))
                 (calcSurfaceNormals (getTriangles (fst (createVisualHull mc self)))) fs))"
proof -
  have new: "getTriangles (visual_hull (VoxelCarving_new bbox vdim)) = []"
    by (simp add: VoxelCarving_new_def)
  have "getTriangles (visual_hull s) = []"
    if "carve_all ext cams (VoxelCarving_new bbox vdim) = Inr s"
    using carve_all_visual_hull [OF that] new by simp
  with new show ?thesis
    by (auto simp: exportToDisk_def createVisualHull_def Let_def)
qed

theorem exportToDisk_precondition_witness:
  "getTriangles (visual_hull (VoxelCarving_new box_0_10 2)) = []
   \<and> exportToDisk save_demo (VoxelCarving_new box_0_10 2) [] = Inl AssertionFailed
   \<and> (\<exists>s. carve_all ext_demo [cam_fg] (VoxelCarving_new box_0_10 2) = Inr s
         \<and> exportToDisk save_demo s [] = Inl AssertionFailed)
   \<and> getTriangles (fst (createVisualHull mc_demo (VoxelCarving_new box_0_10 2))) \<noteq> []
   \<and> exportToDisk save_demo (snd (createVisualHull mc_demo (VoxelCarving_new box_0_10 2))) []
       = Inr [(''export.obj'', [unit_triangle], calcSurfaceNormals [unit_triangle])]"
proof -
  let ?S = "VoxelCarving_new box_0_10 2"
  have a: "getTriangles (visual_hull ?S) = []"
    by (simp add: VoxelCarving_new_def)
  have b: "getTriangles (fst (createVisualHull mc_demo ?S)) = [unit_triangle]"
    by (simp add: createVisualHull_def Let_def mc_demo_def)
  obtain s where s: "carve_all ext_demo [cam_fg] ?S = Inr s"
    using carve_all_char [OF wf_carving_new, of 2 ext_demo "[cam_fg]" box_0_10] by simp
  note th = exportToDisk_precondition [of "?S" save_demo "[]" box_0_10 2 ext_demo "[cam_fg]" s mc_demo]
  from th a have "exportToDisk save_demo ?S [] = Inl AssertionFailed"
    by blast
  moreover from th s have "exportToDisk save_demo s [] = Inl AssertionFailed"
    by blast
  moreover from th b have "exportToDisk save_demo (snd (createVisualHull mc_demo ?S)) []
       = Inr [(''export.obj'', [unit_triangle], calcSurfaceNormals [unit_triangle])]"
    by (simp add: save_demo_def)
  ultimately show ?thesis
    using a b s by simp
qed

subsection \<open>Idempotence of carving\<close>

text \<open>
  C9. On every well-formed object, \<open>carve\<close> with a camera succeeds, and a second
  \<open>carve\<close> with the same camera returns the very same object: the field is unchanged.
\<close>

theorem carve_idempotent:
  assumes "wf_carving self"
  shows "\<exists>s. carve ext cam self = Inr s \<and> carve ext cam s = Inr s"
proof -
  let ?s = "self\<lparr>vox_array := carve_field ext cam self (vox_array self)\<rparr>"
  have "carve_field ext cam self (carve_field ext cam self (vox_array self))
          = carve_field ext cam self (vox_array self)"
    by (rule nth_equalityI) (simp_all add: carve_field_nth std_min_idem)
  moreover have "wf_carving ?s"
    using assms by (simp add: wf_carving_vox_array)
  ultimately have "carve ext cam ?s = Inr ?s"
    by (simp add: carve_char)
  with assms show ?thesis
    by (simp add: carve_char)
qed

theorem carve_idempotent_witness:
  "wf_carving (VoxelCarving_new box_0_10 2)
   \<and> (\<exists>s. carve ext_demo cam_bg (VoxelCarving_new box_0_10 2) = Inr s
          \<and> carve ext_demo cam_bg s = Inr s)"
proof -
  have "wf_carving (VoxelCarving_new box_0_10 2)"
    by (simp add: wf_carving_new)
  with carve_idempotent [of "VoxelCarving_new box_0_10 2" ext_demo cam_bg]
  show ?thesis
    by simp
qed

subsection \<open>Voxel steps are never negative\<close>

text \<open>
  C10. For every bounding box of finite floats, in whatever order its bounds are and
  also when an extent is zero, and for every voxel dimension other than zero, the
  three voxel steps computed by \<open>calcStartParameter\<close> are greater than or equal to
  zero (the float comparison \<open><=\<close>, so none is a NaN).
\<close>

theorem voxel_steps_nonneg:
  assumes "is_finite (xmin bbox)" "is_finite (xmax bbox)"
    and "is_finite (ymin bbox)" "is_finite (ymax bbox)"
    and "is_finite (zmin bbox)" "is_finite (zmax bbox)"
    and "0 < vdim"
  shows "fle (float_lit 0 1) (voxel_width (calcStartParameter vdim bbox))
       \<and> fle (float_lit 0 1) (voxel_height (calcStartParameter vdim bbox))
       \<and> fle (float_lit 0 1) (voxel_depth (calcStartParameter vdim bbox))"
proof -
  from assms(7) have "0 < unat vdim"
    by (simp add: word_less_nat_alt)
  then obtain n where n: "0 < n" "float_of_size_t vdim = Finite False n"
    using float_of_size_t_pos by blast
  have x: "nonneg (fabs (fsub (xmax bbox) (xmin bbox)))"
    and y: "nonneg (fabs (fsub (ymax bbox) (ymin bbox)))"
    and z: "nonneg (fabs (fsub (zmax bbox) (zmin bbox)))"
    using assms(1-6) by (simp_all add: fabs_nonneg fsub_finite_not_nan)
  have "nonneg (fdiv (fmul (fabs (fsub (xmax bbox) (xmin bbox))) (Finite False (9395241 * 2 ^ 126)))
      (Finite False n))"
    using x n(1) by (intro fdiv_nonneg fmul_nonneg) simp_all
  moreover have "nonneg (fdiv (fmul (fabs (fsub (ymax bbox) (ymin bbox)))
      (Finite False (11744051 * 2 ^ 126))) (Finite False n))"
    using y n(1) by (intro fdiv_nonneg fmul_nonneg) simp_all
  moreover have "nonneg (fdiv (fabs (fsub (zmax bbox) (zmin bbox))) (Finite False n))"
    using z n(1) by (intro fdiv_nonneg)
  moreover have "voxel_width (calcStartParameter vdim bbox)
      = fdiv (fmul (fabs (fsub (xmax bbox) (xmin bbox))) (Finite False (9395241 * 2 ^ 126)))
          (Finite False n)"
    and "voxel_height (calcStartParameter vdim bbox)
      = fdiv (fmul (fabs (fsub (ymax bbox) (ymin bbox))) (Finite False (11744051 * 2 ^ 126)))
          (Finite False n)"
    and "voxel_depth (calcStartParameter vdim bbox)
      = fdiv (fabs (fsub (zmax bbox) (zmin bbox))) (Finite False n)"
    unfolding calcStartParameter_def Let_def margin_x margin_y n(2) by simp_all
  ultimately show ?thesis
    by (simp only: nonneg_fle simp_thms)
qed

theorem voxel_steps_nonneg_witness:
  "is_finite (xmin box_reversed) \<and> is_finite (xmax box_reversed)
   \<and> is_finite (ymin box_reversed) \<and> is_finite (ymax box_reversed)
   \<and> is_finite (zmin box_reversed) \<and> is_finite (zmax box_reversed)
   \<and> fle (float_lit 0 1) (voxel_width (calcStartParameter 4 box_reversed))
   \<and> fle (float_lit 0 1) (voxel_height (calcStartParameter 4 box_reversed))
   \<and> fle (float_lit 0 1) (voxel_depth (calcStartParameter 4 box_reversed))"
proof -
  have fin: "is_finite (float_lit 0 1)" "is_finite (float_lit 10 1)"
    unfolding float_lit_0 by (simp_all add: float_lit_def fround_def Let_def bit_length.simps)
  have "(0 :: size_t) < 4"
    by simp
  with fin show ?thesis
    using voxel_steps_nonneg [of box_reversed 4]
    by (simp add: box_reversed_def)
qed

end
